theory Spec2Isabelle
  imports
    Main
    "HOL-Library.Multiset"
    "HOL-Library.Sublist"
    "HOL-Library.Char_ord"
    "HOL-Library.List_Lexorder"
begin

section \<open>Strings and numbers of the host language\<close>

text \<open>
  A string is the list of its code units; the type \<open>char\<close> has the code units below 256,
  so the strings of the model are those of Latin-1 text. The order on strings given by
  \<open>List_Lexorder\<close> over \<open>Char_ord\<close> compares code units from the left and puts a proper
  prefix first, which is the comparison the default \<open>Array.prototype.sort\<close> applies to
  strings. File sizes, timestamps and the configured limits are integers; on an integer
  below \<open>10^21\<close> the conversion of a number to a string inside a template literal is the
  decimal numeral.
\<close>

definition digit_char :: "nat \<Rightarrow> char" where
  "digit_char d = ''0123456789'' ! d"

fun string_of_nat :: "nat \<Rightarrow> string" where
  "string_of_nat n =
     (if n < 10 then [digit_char n]
      else string_of_nat (n div 10) @ [digit_char (n mod 10)])"

declare string_of_nat.simps [simp del]

definition string_of_int :: "int \<Rightarrow> string" where
  "string_of_int i =
     (if i < 0 then CHR ''-'' # string_of_nat (nat (- i)) else string_of_nat (nat i))"

text \<open>\<open>Array.prototype.join\<close> on a list of strings.\<close>

fun join :: "string \<Rightarrow> string list \<Rightarrow> string" where
  "join sep [] = []"
| "join sep [x] = x"
| "join sep (x # y # ys) = x @ sep @ join sep (y # ys)"

definition newline :: string where
  "newline = [CHR 0x0A]"

text \<open>
  \<open>startsWith\<close>, \<open>endsWith\<close> and \<open>includes\<close> of \<open>String.prototype\<close>; the last is
  named \<open>includes_str\<close>.
\<close>

definition startsWith :: "string \<Rightarrow> string \<Rightarrow> bool" where
  "startsWith s p = prefix p s"

definition endsWith :: "string \<Rightarrow> string \<Rightarrow> bool" where
  "endsWith s p = suffix p s"

definition includes_str :: "string \<Rightarrow> string \<Rightarrow> bool" where
  "includes_str s p = sublist p s"

text \<open>
  \<open>toLowerCase\<close> on these code units: the letters \<open>A\<close> to \<open>Z\<close> (65 to 90) and the capital
  letters of Latin-1 (192 to 222, without the multiplication sign 215) are moved up by
  32; every other code unit is kept.
\<close>

definition lower_char :: "char \<Rightarrow> char" where
  "lower_char c =
     (let n = (of_char c :: nat)
      in if (65 \<le> n \<and> n \<le> 90) \<or> (192 \<le> n \<and> n \<le> 222 \<and> n \<noteq> 215) then char_of (n + 32)
         else c)"

definition toLowerCase :: "string \<Rightarrow> string" where
  "toLowerCase s = map lower_char s"

text \<open>\<open>s.replace(/\\/g, '/')\<close>: every backslash becomes a slash.\<close>

definition slash :: char where
  "slash = CHR ''/''"

definition backslash :: char where
  "backslash = CHR 0x5C"

definition replaceBackslashes :: "string \<Rightarrow> string" where
  "replaceBackslashes s = map (\<lambda>c. if c = backslash then slash else c) s"

subsection \<open>The \<open>path\<close> module\<close>

text \<open>
  \<open>path.basename\<close>, \<open>path.dirname\<close> and \<open>path.extname\<close> with POSIX separators, as the
  platform documents them. \<open>basename\<close> drops trailing slashes and returns what follows the
  last remaining slash. \<open>dirname\<close> looks, from the right and without reading the first
  code unit, for the first slash that has a non-slash to its right and returns what
  precedes it: \<open>.\<close> or \<open>/\<close> if there is none, \<open>//\<close> if it is the second code unit of a
  rooted path. \<open>extname\<close> returns the last component from its last dot, and the empty
  string if there is no dot, if the dot comes first, or if the component is \<open>..\<close>.
\<close>

definition stripTrailingSlashes :: "string \<Rightarrow> string" where
  "stripTrailingSlashes p = rev (dropWhile (\<lambda>c. c = slash) (rev p))"

definition basename :: "string \<Rightarrow> string" where
  "basename p = rev (takeWhile (\<lambda>c. c \<noteq> slash) (rev (stripTrailingSlashes p)))"

definition dirname :: "string \<Rightarrow> string" where
  "dirname p =
     (case p of
        [] \<Rightarrow> ''.''
      | c # t \<Rightarrow>
          (case dropWhile (\<lambda>d. d \<noteq> slash) (dropWhile (\<lambda>d. d = slash) (rev t)) of
             [] \<Rightarrow> (if c = slash then ''/'' else ''.'')
           | _ # r \<Rightarrow> (if c = slash \<and> r = [] then ''//'' else c # rev r)))"

definition extname :: "string \<Rightarrow> string" where
  "extname p =
     (let b = basename p;
          e = rev (takeWhile (\<lambda>c. c \<noteq> CHR ''.'') (rev b))
      in if CHR ''.'' \<notin> set b \<or> length e + 1 = length b \<or> b = ''..'' then []
         else CHR ''.'' # e)"

section \<open>Data model\<close>

text \<open>
  \<open>FileInfo\<close> and \<open>WorkspaceAnalysis\<close> of \<open>extension.ts\<close>. The optional fields
  \<open>languageId\<close> and \<open>sample\<close> are options. The field \<open>size\<close> is named \<open>size_bytes\<close>.
\<close>

record FileInfo =
  path :: string
  size_bytes :: nat
  mtime :: nat
  languageId :: "string option"
  sample :: "string option"

record WorkspaceAnalysis =
  workspaceName :: string
  workspaceRoot :: string
  fingerprint :: string
  fileCount :: nat
  files :: "FileInfo list"

section \<open>File classifier\<close>

text \<open>\<open>TEXT_FILE_EXTENSIONS\<close>; the source repeats \<open>.jsx\<close> and \<open>.tsx\<close> at the end of the set.\<close>

definition TEXT_FILE_EXTENSIONS :: "string list" where
  "TEXT_FILE_EXTENSIONS =
     [''.ts'', ''.tsx'', ''.js'', ''.jsx'', ''.py'', ''.cs'', ''.java'', ''.go'', ''.rs'',
      ''.md'', ''.json'', ''.yml'', ''.yaml'', ''.toml'', ''.xml'', ''.html'', ''.css'',
      ''.scss'', ''.less'', ''.sql'', ''.sh'', ''.bash'', ''.ps1'', ''.bat'', ''.cmd'',
      ''.cpp'', ''.c'', ''.h'', ''.hpp'', ''.cc'', ''.cxx'', ''.m'', ''.mm'', ''.swift'',
      ''.php'', ''.rb'', ''.pl'', ''.lua'', ''.r'', ''.scala'', ''.kt'', ''.dart'',
      ''.vue'', ''.svelte'', ''.jsx'', ''.tsx'']"

definition langMap :: "(string \<times> string) list" where
  "langMap =
     [(''.ts'', ''typescript''), (''.tsx'', ''typescriptreact''), (''.js'', ''javascript''),
      (''.jsx'', ''javascriptreact''), (''.py'', ''python''), (''.cs'', ''csharp''),
      (''.java'', ''java''), (''.go'', ''go''), (''.rs'', ''rust''), (''.md'', ''markdown''),
      (''.json'', ''json''), (''.yml'', ''yaml''), (''.yaml'', ''yaml''), (''.toml'', ''toml''),
      (''.xml'', ''xml''), (''.html'', ''html''), (''.css'', ''css''), (''.scss'', ''scss''),
      (''.less'', ''less''), (''.sql'', ''sql''), (''.sh'', ''shellscript''),
      (''.bash'', ''shellscript''), (''.ps1'', ''powershell''), (''.bat'', ''bat''),
      (''.cmd'', ''bat''), (''.cpp'', ''cpp''), (''.c'', ''c''), (''.h'', ''c''),
      (''.hpp'', ''cpp''), (''.cc'', ''cpp''), (''.cxx'', ''cpp''), (''.m'', ''objective-c''),
      (''.mm'', ''objective-cpp''), (''.swift'', ''swift''), (''.php'', ''php''),
      (''.rb'', ''ruby''), (''.pl'', ''perl''), (''.lua'', ''lua''), (''.r'', ''r''),
      (''.scala'', ''scala''), (''.kt'', ''kotlin''), (''.dart'', ''dart''), (''.vue'', ''vue''),
      (''.svelte'', ''svelte'')]"

definition getLanguageId :: "string \<Rightarrow> string option" where
  "getLanguageId filePath = map_of langMap (toLowerCase (extname filePath))"

definition isSensitiveFile :: "string \<Rightarrow> bool" where
  "isSensitiveFile filePath =
     (let normalized = replaceBackslashes (toLowerCase filePath);
          fileName = basename normalized;
          dirName = dirname normalized
      in if fileName = ''.env'' \<or> startsWith fileName ''.env.'' then True
         else if startsWith fileName ''secrets'' \<or> includes_str fileName ''secrets'' then True
         else if startsWith fileName ''id_rsa'' then True
         else if endsWith fileName ''.pfx'' \<or> endsWith fileName ''.pem'' \<or>
                 endsWith fileName ''.key'' \<or> endsWith fileName ''.p12'' then True
         else if startsWith fileName ''credentials'' \<or> includes_str fileName ''credentials''
           then True
         else if includes_str dirName ''secrets'' \<or> includes_str dirName ''credentials''
           then True
         else False)"

section \<open>Fingerprint\<close>

text \<open>
  \<open>computeFingerprint\<close> maps every record to the line \<open>path|size|mtime\<close>, sorts the
  lines, joins them with a newline and hashes the result. The hash
  (\<open>crypto.createHash('sha256')\<close> with its hex digest) belongs to the platform and is a
  parameter of the model.
\<close>

definition entry :: "FileInfo \<Rightarrow> string" where
  "entry f = path f @ ''|'' @ string_of_nat (size_bytes f) @ ''|'' @ string_of_nat (mtime f)"

definition computeFingerprint :: "(string \<Rightarrow> string) \<Rightarrow> FileInfo list \<Rightarrow> string" where
  "computeFingerprint sha256_hex fs = sha256_hex (join newline (sort (map entry fs)))"

text \<open>The part of a record the fingerprint reads.\<close>

definition triple :: "FileInfo \<Rightarrow> string \<times> nat \<times> nat" where
  "triple f = (path f, size_bytes f, mtime f)"

definition same_metadata :: "FileInfo \<Rightarrow> FileInfo \<Rightarrow> bool" where
  "same_metadata f g \<longleftrightarrow> path f = path g \<and> size_bytes f = size_bytes g \<and> mtime f = mtime g"

section \<open>Workspace analysis\<close>

text \<open>
  What one call of \<open>analyzeWorkspace\<close> reads from the editor: the workspace folders, the
  two settings, and the answers of \<open>findFiles\<close>, \<open>asRelativePath\<close>, \<open>fs.stat\<close> and
  \<open>fs.readFile\<close> followed by the UTF-8 decoding, which does not throw. A call that rejects
  is \<open>None\<close>. \<open>findFiles\<close> receives the constant patterns and \<open>maxFiles\<close>; the model puts no
  constraint on the list it returns. File URIs are strings.
\<close>

record WorkspaceFolder =
  name :: string
  uri :: string
  fsPath :: string

record FileStat =
  stat_size :: nat
  stat_mtime :: nat

record Workspace =
  workspaceFolders :: "WorkspaceFolder list"
  maxFiles :: int
  maxBytesPerFile :: int
  findFiles :: "int \<Rightarrow> string list option"
  asRelativePath :: "string \<Rightarrow> string"
  stat :: "string \<Rightarrow> FileStat option"
  readFile :: "string \<Rightarrow> string option"

text \<open>
  \<open>xs.slice(0, n)\<close> and \<open>s.substring(0, n)\<close> for an integer \<open>n\<close>: a negative end counts
  from the right in \<open>slice\<close> and is zero in \<open>substring\<close>.
\<close>

definition slice0 :: "'a list \<Rightarrow> int \<Rightarrow> 'a list" where
  "slice0 xs n = (if n < 0 then take (nat (int (length xs) + n)) xs else take (nat n) xs)"

definition substring0 :: "string \<Rightarrow> int \<Rightarrow> string" where
  "substring0 s n = take (nat n) s"

text \<open>
  The body of the loop for one file: \<open>None\<close> when the file is skipped (sensitive, or
  \<open>stat\<close> throws), otherwise the record that is pushed.
\<close>

definition processFile :: "Workspace \<Rightarrow> string \<Rightarrow> FileInfo option" where
  "processFile w fileUri =
     (let relativePath = asRelativePath w fileUri in
      if isSensitiveFile relativePath then None
      else
        (case stat w fileUri of
           None \<Rightarrow> None
         | Some st \<Rightarrow>
             (let ext = toLowerCase (extname relativePath);
                  fileInfo = \<lparr>path = relativePath, size_bytes = stat_size st,
                    mtime = stat_mtime st, languageId = getLanguageId relativePath,
                    sample = None\<rparr>
              in if ext \<in> set TEXT_FILE_EXTENSIONS \<and> stat_size st > 0 \<and>
                    int (stat_size st) \<le> maxBytesPerFile w * 10
                 then
                   (case readFile w fileUri of
                      None \<Rightarrow> Some fileInfo
                    | Some text \<Rightarrow>
                        Some (fileInfo\<lparr>sample :=
                          Some (if int (length text) > maxBytesPerFile w
                                then substring0 text (maxBytesPerFile w) else text)\<rparr>))
                 else Some fileInfo)))"

text \<open>The loop over the found files; \<open>fileInfos\<close> is the array the records are pushed to.\<close>

fun collectFiles :: "Workspace \<Rightarrow> string list \<Rightarrow> FileInfo list \<Rightarrow> FileInfo list" where
  "collectFiles w [] fileInfos = fileInfos"
| "collectFiles w (fileUri # rest) fileInfos =
     (case processFile w fileUri of
        None \<Rightarrow> collectFiles w rest fileInfos
      | Some fileInfo \<Rightarrow> collectFiles w rest (fileInfos @ [fileInfo]))"

text \<open>
  The module-level \<open>analysisCache\<close> is a map from the folder URI to the analysis (the
  output channel is left out).
\<close>

type_synonym cache = "string \<rightharpoonup> WorkspaceAnalysis"

definition buildAnalysis ::
    "(string \<Rightarrow> string) \<Rightarrow> Workspace \<Rightarrow> WorkspaceFolder \<Rightarrow> string list \<Rightarrow> WorkspaceAnalysis" where
  "buildAnalysis sha256_hex w workspaceFolder found =
     (let fileInfos = collectFiles w (slice0 found (maxFiles w)) []
      in \<lparr>workspaceName = name workspaceFolder,
          workspaceRoot = fsPath workspaceFolder,
          fingerprint = computeFingerprint sha256_hex fileInfos,
          fileCount = length fileInfos,
          files = fileInfos\<rparr>)"

text \<open>
  \<open>analyzeWorkspace\<close> is asynchronous. It reads the cache when it is called
  (\<open>analysisCache.get\<close>), awaits \<open>findFiles\<close>, \<open>stat\<close> and \<open>readFile\<close>, and stores its
  analysis only after the last of them (\<open>analysisCache.set\<close>); its callers do not wait
  for one another, so that, between the read and the store, other calls and handlers
  run on the same cache. A call is therefore two steps.

  \<^item> \<open>analyzeWorkspace_begin\<close> is the call up to the store, on the cache of the moment of
    the call. Either the call is finished with its result: \<open>null\<close>, here \<open>None\<close>, without
    a folder or when \<open>findFiles\<close> throws (the only call of the \<open>try\<close> block that can), and
    the cached analysis on a hit. Or the call has an analysis to store under its key.
  \<^item> \<open>analyzeWorkspace_end\<close> is the store and the \<open>return\<close>, on the cache of the moment
    the analysis is complete.

  \<open>analyzeWorkspace\<close> is a call during whose awaits nothing else touches the cache: the
  second step on the cache of the first. The value a call returns does not depend on
  the cache of the second step, so it is the first component of \<open>analyzeWorkspace\<close> on
  the cache of the moment of the call, also for a call that is interleaved with others.
\<close>

datatype pending = Finished "WorkspaceAnalysis option" | Pending string WorkspaceAnalysis

definition analyzeWorkspace_begin ::
    "(string \<Rightarrow> string) \<Rightarrow> Workspace \<Rightarrow> cache \<Rightarrow> pending" where
  "analyzeWorkspace_begin sha256_hex w analysisCache =
     (case workspaceFolders w of
        [] \<Rightarrow> Finished None
      | workspaceFolder # _ \<Rightarrow>
          (let cacheKey = uri workspaceFolder in
           case analysisCache cacheKey of
             Some cached \<Rightarrow> Finished (Some cached)
           | None \<Rightarrow>
               (case findFiles w (maxFiles w) of
                  None \<Rightarrow> Finished None
                | Some found \<Rightarrow>
                    Pending cacheKey (buildAnalysis sha256_hex w workspaceFolder found))))"

definition analyzeWorkspace_end :: "pending \<Rightarrow> cache \<Rightarrow> WorkspaceAnalysis option \<times> cache" where
  "analyzeWorkspace_end p analysisCache =
     (case p of
        Finished result \<Rightarrow> (result, analysisCache)
      | Pending cacheKey analysis \<Rightarrow> (Some analysis, analysisCache(cacheKey \<mapsto> analysis)))"

definition analyzeWorkspace ::
    "(string \<Rightarrow> string) \<Rightarrow> Workspace \<Rightarrow> cache \<Rightarrow> WorkspaceAnalysis option \<times> cache" where
  "analyzeWorkspace sha256_hex w analysisCache =
     analyzeWorkspace_end (analyzeWorkspace_begin sha256_hex w analysisCache) analysisCache"

text \<open>
  \<open>rebuildAnalysis\<close> deletes the entry of the first folder and calls \<open>analyzeWorkspace\<close>,
  whose lookup runs before anything else can: there is no \<open>await\<close> between the delete and
  it. \<open>rebuildAnalysis_begin\<close> is the command up to the store of that call, and
  \<open>rebuildAnalysis\<close> the cache after a command during whose awaits nothing else touches
  the cache. The handler of \<open>onDidChangeWorkspaceFolders\<close> and \<open>deactivate\<close> clear the map.
\<close>

definition rebuildAnalysis_begin ::
    "(string \<Rightarrow> string) \<Rightarrow> Workspace \<Rightarrow> cache \<Rightarrow> cache \<times> pending" where
  "rebuildAnalysis_begin sha256_hex w analysisCache =
     (case workspaceFolders w of
        [] \<Rightarrow> (analysisCache, Finished None)
      | workspaceFolder # _ \<Rightarrow>
          (let deleted = analysisCache(uri workspaceFolder := None)
           in (deleted, analyzeWorkspace_begin sha256_hex w deleted)))"

definition rebuildAnalysis :: "(string \<Rightarrow> string) \<Rightarrow> Workspace \<Rightarrow> cache \<Rightarrow> cache" where
  "rebuildAnalysis sha256_hex w analysisCache =
     (case rebuildAnalysis_begin sha256_hex w analysisCache of
        (deleted, p) \<Rightarrow> snd (analyzeWorkspace_end p deleted))"

definition onDidChangeWorkspaceFolders :: "cache \<Rightarrow> cache" where
  "onDidChangeWorkspaceFolders analysisCache = Map.empty"

definition deactivate :: "cache \<Rightarrow> cache" where
  "deactivate analysisCache = Map.empty"

text \<open>
  A session. Its state is the cache together with the analyses in flight: those a call
  has begun and not yet stored, each with its key. The extension starts with an empty
  cache and nothing in flight, and an event is one of these:

  \<^item> \<open>Analyze\<close>, \<open>Rebuild\<close>: a call of \<open>analyzeWorkspace\<close>, a \<open>rebuildAnalysis\<close> command, that
    runs to its end before anything else happens;
  \<^item> \<open>AnalyzeBegin\<close>, \<open>RebuildBegin\<close>: the same up to the store, which puts the analysis
    to store in flight;
  \<^item> \<open>AnalyzeEnd\<close>: the end of a call in flight, which stores its analysis;
  \<^item> \<open>FoldersChanged\<close>, \<open>Deactivate\<close>: the two handlers that clear the map. A call in
    flight is not cancelled by them.
\<close>

type_synonym in_flight = "(string \<times> WorkspaceAnalysis) list"

definition launch :: "pending \<Rightarrow> in_flight \<Rightarrow> in_flight" where
  "launch p running =
     (case p of
        Finished result \<Rightarrow> running
      | Pending cacheKey analysis \<Rightarrow> running @ [(cacheKey, analysis)])"

datatype event =
    Analyze Workspace
  | Rebuild Workspace
  | FoldersChanged
  | Deactivate
  | AnalyzeBegin Workspace
  | RebuildBegin Workspace
  | AnalyzeEnd string WorkspaceAnalysis

fun step :: "(string \<Rightarrow> string) \<Rightarrow> cache \<times> in_flight \<Rightarrow> event \<Rightarrow> cache \<times> in_flight" where
  "step sha256_hex (c, running) (Analyze w) = (snd (analyzeWorkspace sha256_hex w c), running)"
| "step sha256_hex (c, running) (Rebuild w) = (rebuildAnalysis sha256_hex w c, running)"
| "step sha256_hex (c, running) FoldersChanged = (onDidChangeWorkspaceFolders c, running)"
| "step sha256_hex (c, running) Deactivate = (deactivate c, running)"
| "step sha256_hex (c, running) (AnalyzeBegin w) =
     (c, launch (analyzeWorkspace_begin sha256_hex w c) running)"
| "step sha256_hex (c, running) (RebuildBegin w) =
     (case rebuildAnalysis_begin sha256_hex w c of (deleted, p) \<Rightarrow> (deleted, launch p running))"
| "step sha256_hex (c, running) (AnalyzeEnd k analysis) =
     (if (k, analysis) \<in> set running
      then (snd (analyzeWorkspace_end (Pending k analysis) c), remove1 (k, analysis) running)
      else (c, running))"

definition session_state :: "(string \<Rightarrow> string) \<Rightarrow> event list \<Rightarrow> cache \<times> in_flight" where
  "session_state sha256_hex evs = foldl (step sha256_hex) (Map.empty, []) evs"

definition session :: "(string \<Rightarrow> string) \<Rightarrow> event list \<Rightarrow> cache" where
  "session sha256_hex evs = fst (session_state sha256_hex evs)"

section \<open>Values parsed from JSON\<close>

text \<open>
  What \<open>JSON.parse\<close> can return. The numbers are those of the platform: their type is a
  parameter, and so are the three operations the code applies to them, \<open>toString\<close> (in a
  template literal), \<open>toFixed(2)\<close> and the comparison with zero. An object is the list of
  its properties, every key once (a lookup takes the first pair of a key).
\<close>

datatype 'n json =
    JNull
  | JBool bool
  | JNum 'n
  | JStr string
  | JArr "'n json list"
  | JObj "(string \<times> 'n json) list"

record 'n numops =
  num_toString :: "'n \<Rightarrow> string"
  num_toFixed2 :: "'n \<Rightarrow> string"
  num_isZero :: "'n \<Rightarrow> bool"

text \<open>
  The body of a response is cast to \<open>QueryResponse\<close>, which checks nothing, so the code
  works on whatever was parsed. A value that may be \<open>undefined\<close> is an option. All the
  exceptions these operations can raise are \<open>TypeError\<close>s of the engine or of
  \<open>path.extname\<close>.

  \<^item> \<open>getProp\<close>: reading a property of \<open>null\<close> throws. On any other value the property is
    \<open>property\<close>: an object parsed from JSON has the properties of its text, and on the other
    values the keys the code reads by name (\<open>answers\<close>, \<open>file\<close>, \<open>start_line\<close>, \<open>end_line\<close>,
    \<open>code\<close>, \<open>score\<close>, \<open>explanation\<close>) are undefined.
  \<^item> \<open>truthy\<close>: \<open>undefined\<close>, \<open>null\<close>, \<open>false\<close>, zero and the empty string are falsy.
  \<^item> \<open>lengthIsZero\<close>: \<open>v.length === 0\<close> for a value that is neither \<open>null\<close> nor \<open>undefined\<close>.
  \<^item> \<open>iterate\<close>: \<open>for ... of\<close> runs over the elements of an array and over the characters
    of a string; any other value is not iterable.
  \<^item> \<open>toStringJs\<close>: the conversion inside a template literal; an array is joined with
    commas, \<open>null\<close> elements giving the empty string, and an object is
    \<open>[object Object]\<close> unless it has a property \<open>toString\<close> of its own, which is not a
    function and makes the conversion throw.
  \<^item> \<open>bind_exn\<close> passes an exception on and otherwise continues with the value.
\<close>

datatype js_exception = TypeError

definition property :: "'n json \<Rightarrow> string \<Rightarrow> 'n json option" where
  "property v key = (case v of JObj kvs \<Rightarrow> map_of kvs key | _ \<Rightarrow> None)"

definition getProp :: "'n json \<Rightarrow> string \<Rightarrow> js_exception + 'n json option" where
  "getProp v key = (case v of JNull \<Rightarrow> Inl TypeError | _ \<Rightarrow> Inr (property v key))"

fun truthy :: "'n numops \<Rightarrow> 'n json option \<Rightarrow> bool" where
  "truthy ops None = False"
| "truthy ops (Some JNull) = False"
| "truthy ops (Some (JBool b)) = b"
| "truthy ops (Some (JNum n)) = (\<not> num_isZero ops n)"
| "truthy ops (Some (JStr s)) = (s \<noteq> [])"
| "truthy ops (Some (JArr xs)) = True"
| "truthy ops (Some (JObj kvs)) = True"



fun toStringJs :: "'n numops \<Rightarrow> 'n json \<Rightarrow> js_exception + string"
  and joinJs :: "'n numops \<Rightarrow> 'n json list \<Rightarrow> js_exception + string" where
  "toStringJs ops JNull = Inr ''null''"
| "toStringJs ops (JBool b) = Inr (if b then ''true'' else ''false'')"
| "toStringJs ops (JNum n) = Inr (num_toString ops n)"
| "toStringJs ops (JStr s) = Inr s"
| "toStringJs ops (JArr xs) = joinJs ops xs"
| "toStringJs ops (JObj kvs) =
     (if ''toString'' \<in> set (map fst kvs) then Inl TypeError else Inr ''[object Object]'')"
| "joinJs ops [] = Inr []"
| "joinJs ops (x # xs) =
     (case (case x of JNull \<Rightarrow> Inr [] | _ \<Rightarrow> toStringJs ops x) of
        Inl e \<Rightarrow> Inl e
      | Inr s \<Rightarrow>
          (if xs = [] then Inr s
           else (case joinJs ops xs of Inl e \<Rightarrow> Inl e | Inr t \<Rightarrow> Inr (s @ '','' @ t))))"

definition template :: "'n numops \<Rightarrow> 'n json option \<Rightarrow> js_exception + string" where
  "template ops v = (case v of None \<Rightarrow> Inr ''undefined'' | Some j \<Rightarrow> toStringJs ops j)"

definition bind_exn :: "js_exception + 'a \<Rightarrow> ('a \<Rightarrow> js_exception + 'b) \<Rightarrow> js_exception + 'b" where
  "bind_exn r f = (case r of Inl e \<Rightarrow> Inl e | Inr x \<Rightarrow> f x)"

section \<open>Query client\<close>

text \<open>
  A thrown value is an error object with its \<open>name\<close>, \<open>message\<close> and \<open>code\<close>; the last two
  may be undefined. \<open>newError\<close> is \<open>new Error(message)\<close>.
\<close>

record js_error =
  err_name :: string
  err_message :: "string option"
  err_code :: "string option"

definition newError :: "string \<Rightarrow> js_error" where
  "newError m = \<lparr>err_name = ''Error'', err_message = Some m, err_code = None\<rparr>"

text \<open>The request: the analysis with the context of the active editor.\<close>

record Selection =
  startLine :: nat
  endLine :: nat

record RepoContext = WorkspaceAnalysis +
  activeFile :: "string option"
  selection :: "Selection option"

record QueryRequest =
  query :: string
  repo_context :: RepoContext

text \<open>
  The outcome of \<open>fetch\<close>: the promise rejects with an error, or resolves to a response,
  whose \<open>text()\<close> and \<open>json()\<close> may reject in turn. When the timer aborts the request,
  \<open>fetch\<close> rejects with an error named \<open>AbortError\<close>.
\<close>

record 'n http_response =
  ok :: bool
  status :: int
  text_body :: "js_error + string"
  json_body :: "js_error + 'n json"

datatype 'n fetch_outcome = Rejected js_error | Resolved "'n http_response"

record 'n Backend =
  serverUrl :: string
  requestTimeoutMs :: int
  fetch :: "string \<Rightarrow> QueryRequest \<Rightarrow> 'n fetch_outcome"

definition quote :: string where
  "quote = [CHR 0x22]"

definition apostrophe :: string where
  "apostrophe = [CHR 0x27]"

text \<open>The four errors \<open>sendQuery\<close> constructs.\<close>

definition timeoutError :: "int \<Rightarrow> js_error" where
  "timeoutError timeoutMs =
     newError (''Request timeout after '' @ string_of_int timeoutMs @ ''ms'')"

definition connectivityError :: "string \<Rightarrow> js_error" where
  "connectivityError url =
     newError (''Cannot connect to backend at '' @ url @
       ''. Make sure the backend is running. Use '' @ quote @
       ''AI Code Snippet RAG: Test Connection'' @ quote @ '' to verify.'')"

definition notFoundError :: "nat \<Rightarrow> js_error" where
  "notFoundError n =
     newError (''HTTP 404: Backend endpoint /query not found. The endpoint needs to be '' @
       ''implemented in the backend. Context collected: '' @ string_of_nat n @ '' files.'')"

definition httpError :: "int \<Rightarrow> string \<Rightarrow> js_error" where
  "httpError st errorText = newError (''HTTP '' @ string_of_int st @ '': '' @ errorText)"

text \<open>
  The two errors of the engine that the log line of the success branch,
  \<open>Query successful: ${data.answers?.length || 0} answers\<close>, can raise: a property of
  \<open>null\<close> is read when the body is \<open>null\<close>, and the value to print cannot be converted to
  a string.
\<close>

definition nullPropertyError :: "string \<Rightarrow> js_error" where
  "nullPropertyError key =
     \<lparr>err_name = ''TypeError'',
      err_message = Some (''Cannot read properties of null (reading '' @ apostrophe @ key @
        apostrophe @ '')''),
      err_code = None\<rparr>"

definition conversionError :: js_error where
  "conversionError =
     \<lparr>err_name = ''TypeError'',
      err_message = Some ''Cannot convert object to primitive value'',
      err_code = None\<rparr>"

text \<open>
  The text \<open>${data.answers?.length || 0}\<close> of that line. \<open>data.answers\<close> throws on the
  body \<open>null\<close>. \<open>?.length\<close> is \<open>undefined\<close> when \<open>answers\<close> is \<open>undefined\<close> or \<open>null\<close>, the
  number of elements of an array and of code units of a string, the property \<open>length\<close> of
  an object, and \<open>undefined\<close> on a number or a boolean. A falsy length is replaced by \<open>0\<close>,
  and the result is converted as in every template literal.
\<close>

definition answersLengthText :: "'n numops \<Rightarrow> 'n json \<Rightarrow> js_exception + string" where
  "answersLengthText ops data =
     bind_exn (getProp data ''answers'') (\<lambda>answersValue.
       case answersValue of
         None \<Rightarrow> Inr ''0''
       | Some JNull \<Rightarrow> Inr ''0''
       | Some (JArr xs) \<Rightarrow> Inr (string_of_nat (length xs))
       | Some (JStr s) \<Rightarrow> Inr (string_of_nat (length s))
       | Some (JObj kvs) \<Rightarrow>
           (if truthy ops (property (JObj kvs) ''length'')
            then template ops (property (JObj kvs) ''length'')
            else Inr ''0'')
       | Some _ \<Rightarrow> Inr ''0'')"

definition buildRequest ::
    "string \<Rightarrow> WorkspaceAnalysis \<Rightarrow> string option \<Rightarrow> Selection option \<Rightarrow> QueryRequest" where
  "buildRequest q analysis active sel =
     \<lparr>query = q,
      repo_context =
        \<lparr>workspaceName = workspaceName analysis,
         workspaceRoot = workspaceRoot analysis,
         fingerprint = fingerprint analysis,
         fileCount = fileCount analysis,
         files = files analysis,
         activeFile = active,
         selection = sel\<rparr>\<rparr>"

text \<open>
  The \<open>try\<close> block of \<open>sendQuery\<close>: \<open>Inl\<close> is the value thrown inside it. In the success
  branch the body is returned after the log line, which throws first when its text
  cannot be made.
\<close>

definition sendQuery_try ::
    "'n numops \<Rightarrow> 'n Backend \<Rightarrow> WorkspaceAnalysis \<Rightarrow> QueryRequest \<Rightarrow> js_error + 'n json" where
  "sendQuery_try ops b analysis request =
     (case fetch b (serverUrl b @ ''/query'') request of
        Rejected e \<Rightarrow> Inl e
      | Resolved response \<Rightarrow>
          if ok response then
            (case json_body response of
               Inl e \<Rightarrow> Inl e
             | Inr data \<Rightarrow>
                 (case data of
                    JNull \<Rightarrow> Inl (nullPropertyError ''answers'')
                  | _ \<Rightarrow>
                      (case answersLengthText ops data of
                         Inl e \<Rightarrow> Inl conversionError
                       | Inr logged \<Rightarrow> Inr data)))
          else
            (case text_body response of
               Inl e \<Rightarrow> Inl e
             | Inr errorText \<Rightarrow>
                 if status response = 404 then Inl (notFoundError (fileCount analysis))
                 else Inl (httpError (status response) errorText)))"

text \<open>
  The \<open>catch\<close> block: the error that leaves \<open>sendQuery\<close> for the error caught. Its two
  log lines print the message and the JSON text of the error and do not throw.
\<close>

definition sendQuery_catch :: "'n Backend \<Rightarrow> js_error \<Rightarrow> js_error" where
  "sendQuery_catch b error =
     (if err_name error = ''AbortError'' then timeoutError (requestTimeoutMs b)
      else if (case err_message error of None \<Rightarrow> False | Some m \<Rightarrow> includes_str m ''fetch failed'')
           \<or> err_code error = Some ''ECONNREFUSED'' \<or> err_code error = Some ''ENOTFOUND''
        then connectivityError (serverUrl b)
      else error)"

definition sendQuery ::
    "'n numops \<Rightarrow> 'n Backend \<Rightarrow> string \<Rightarrow> WorkspaceAnalysis \<Rightarrow> string option \<Rightarrow>
     Selection option \<Rightarrow> js_error + 'n json" where
  "sendQuery ops b q analysis active sel =
     (case sendQuery_try ops b analysis (buildRequest q analysis active sel) of
        Inr data \<Rightarrow> Inr data
      | Inl error \<Rightarrow> Inl (sendQuery_catch b error))"

section \<open>Response renderer\<close>

text \<open>
  \<open>QueryAnswer\<close> and \<open>QueryResponse\<close> as the interfaces declare them, and \<open>renderResponse\<close>
  on a response of that type. \<open>renderAnswer\<close> is the text one round of the loop appends
  to \<open>markdown\<close>.
\<close>

record 'n QueryAnswer =
  "file" :: string
  start_line :: 'n
  end_line :: 'n
  code :: string
  score :: 'n
  explanation :: string

record 'n QueryResponse =
  answers :: "'n QueryAnswer list"

definition fence :: string where
  "fence = [CHR 0x60, CHR 0x60, CHR 0x60]"

definition languageTag :: "string \<Rightarrow> string" where
  "languageTag f = (case getLanguageId f of None \<Rightarrow> ''text'' | Some l \<Rightarrow> l)"

definition fileReference :: "string \<Rightarrow> string" where
  "fileReference f = ''**'' @ f @ ''**''"

definition answerText ::
    "string \<Rightarrow> string \<Rightarrow> string \<Rightarrow> string \<Rightarrow> string \<Rightarrow> string \<Rightarrow> string \<Rightarrow> string" where
  "answerText f startText endText scoreText lang codeText explanationText =
     fileReference f @ '' (lines '' @ startText @ ''-'' @ endText @ '') [score: '' @ scoreText @
       '']'' @ newline @ newline @
     fence @ lang @ newline @ codeText @ newline @ fence @ newline @ newline @
     explanationText @
     ''---'' @ newline @ newline"

definition renderAnswer :: "'n numops \<Rightarrow> 'n QueryAnswer \<Rightarrow> string" where
  "renderAnswer ops answer =
     answerText (file answer)
       (num_toString ops (start_line answer)) (num_toString ops (end_line answer))
       (num_toFixed2 ops (score answer)) (languageTag (file answer)) (code answer)
       (if explanation answer \<noteq> [] then explanation answer @ newline @ newline else [])"

fun renderLoop :: "'n numops \<Rightarrow> 'n QueryAnswer list \<Rightarrow> string \<Rightarrow> string" where
  "renderLoop ops [] markdown = markdown"
| "renderLoop ops (answer # rest) markdown = renderLoop ops rest (markdown @ renderAnswer ops answer)"

definition renderResponse :: "'n numops \<Rightarrow> 'n QueryResponse \<Rightarrow> string" where
  "renderResponse ops response =
     (if answers response = [] then ''No results found.''
      else renderLoop ops (answers response) [])"






section \<open>Notions used in the statements\<close>

text \<open>
  The components of a path, separated by slashes, and the sensitive patterns as a list of
  alternatives on the lower-cased path with forward slashes: the base name is \<open>.env\<close> or
  starts with \<open>.env.\<close>, contains \<open>secrets\<close> or \<open>credentials\<close>, starts with \<open>id_rsa\<close>, ends with
  \<open>.pfx\<close>, \<open>.pem\<close>, \<open>.key\<close> or \<open>.p12\<close>, or a component of the directory contains \<open>secrets\<close>
  or \<open>credentials\<close>.
\<close>

fun components :: "string \<Rightarrow> string list" where
  "components [] = [[]]"
| "components (c # cs) =
     (if c = slash then [] # components cs
      else (case components cs of [] \<Rightarrow> [[c]] | x # xs \<Rightarrow> (c # x) # xs))"

definition matchesSensitivePattern :: "string \<Rightarrow> bool" where
  "matchesSensitivePattern p =
     (let n = replaceBackslashes (toLowerCase p); b = basename n;
          directories = components (dirname n)
      in b = ''.env'' \<or> startsWith b ''.env.'' \<or>
         includes_str b ''secrets'' \<or> includes_str b ''credentials'' \<or>
         startsWith b ''id_rsa'' \<or>
         endsWith b ''.pfx'' \<or> endsWith b ''.pem'' \<or> endsWith b ''.key'' \<or> endsWith b ''.p12'' \<or>
         (\<exists>d\<in>set directories. includes_str d ''secrets'' \<or> includes_str d ''credentials''))"

text \<open>The key under which a call of \<open>analyzeWorkspace\<close> or \<open>rebuildAnalysis\<close> works.\<close>

definition cacheKey :: "Workspace \<Rightarrow> string option" where
  "cacheKey w = (case workspaceFolders w of [] \<Rightarrow> None | workspaceFolder # _ \<Rightarrow> Some (uri workspaceFolder))"

text \<open>
  The workspaces an event reads. The events that remove the entry of a key: a rebuild
  for the key, which deletes it, and the two clears (an atomic \<open>Rebuild\<close> stores a new
  entry after the delete). The events that store under a key: the end of a call in flight
  for the key, and such a call or rebuild as a whole.
\<close>

fun event_workspaces :: "event \<Rightarrow> Workspace list" where
  "event_workspaces (Analyze w) = [w]"
| "event_workspaces (Rebuild w) = [w]"
| "event_workspaces FoldersChanged = []"
| "event_workspaces Deactivate = []"
| "event_workspaces (AnalyzeBegin w) = [w]"
| "event_workspaces (RebuildBegin w) = [w]"
| "event_workspaces (AnalyzeEnd k analysis) = []"

fun invalidates :: "string \<Rightarrow> event \<Rightarrow> bool" where
  "invalidates k (Analyze w) = False"
| "invalidates k (Rebuild w) = (cacheKey w = Some k)"
| "invalidates k FoldersChanged = True"
| "invalidates k Deactivate = True"
| "invalidates k (AnalyzeBegin w) = False"
| "invalidates k (RebuildBegin w) = (cacheKey w = Some k)"
| "invalidates k (AnalyzeEnd k' analysis) = False"

fun endsCall :: "string \<Rightarrow> event \<Rightarrow> bool" where
  "endsCall k (AnalyzeEnd k' analysis) = (k' = k)"
| "endsCall k ev = False"

fun stores :: "string \<Rightarrow> event \<Rightarrow> bool" where
  "stores k (Analyze w) = (cacheKey w = Some k)"
| "stores k (Rebuild w) = (cacheKey w = Some k)"
| "stores k (AnalyzeEnd k' analysis) = (k' = k)"
| "stores k ev = False"

definition cache_all :: "(WorkspaceAnalysis \<Rightarrow> bool) \<Rightarrow> cache \<Rightarrow> bool" where
  "cache_all P c \<longleftrightarrow> (\<forall>k A. c k = Some A \<longrightarrow> P A)"

definition in_flight_all :: "(WorkspaceAnalysis \<Rightarrow> bool) \<Rightarrow> in_flight \<Rightarrow> bool" where
  "in_flight_all P running \<longleftrightarrow> list_all (\<lambda>p. P (snd p)) running"

text \<open>
  Where the block of the \<open>i\<close>-th answer starts in the rendered text: after the blocks of
  the answers before it.
\<close>

definition blockOffset :: "'n numops \<Rightarrow> 'n QueryAnswer list \<Rightarrow> nat \<Rightarrow> nat" where
  "blockOffset ops al i = length (concat (map (renderAnswer ops) (take i al)))"



text \<open>
  A connection-level failure, as \<open>fetch\<close> and the network layer report it: the message of
  the error contains \<open>fetch failed\<close>, or its code is \<open>ECONNREFUSED\<close> (host unreachable) or
  \<open>ENOTFOUND\<close> (name resolution failure).
\<close>

definition connectionFailed :: "js_error \<Rightarrow> bool" where
  "connectionFailed e \<longleftrightarrow>
     (case err_message e of None \<Rightarrow> False | Some m \<Rightarrow> includes_str m ''fetch failed'') \<or>
     err_code e = Some ''ECONNREFUSED'' \<or> err_code e = Some ''ENOTFOUND''"

section \<open>Concrete inputs\<close>

text \<open>
  Two records of a workspace with \<open>a.ts\<close> (100 bytes, modified at 1000) and \<open>b.ts\<close>
  (200 bytes, modified at 2000).
\<close>

definition file_a :: FileInfo where
  "file_a = \<lparr>path = ''a.ts'', size_bytes = 100, mtime = 1000,
     languageId = Some ''typescript'', sample = Some ''let a = 1''\<rparr>"

definition file_b :: FileInfo where
  "file_b = \<lparr>path = ''b.ts'', size_bytes = 200, mtime = 2000,
     languageId = Some ''typescript'', sample = None\<rparr>"

text \<open>
  A workspace with five candidate files, two of them sensitive, a ceiling of four files
  and samples of at most four characters.
\<close>

definition demo_folder :: WorkspaceFolder where
  "demo_folder = \<lparr>name = ''demo'', uri = ''file:///demo'', fsPath = ''/demo''\<rparr>"

definition demo_content :: "string \<Rightarrow> string" where
  "demo_content u = (if u = ''/demo/docs/b.md'' then ''# B'' else ''0123456789'')"

definition demo_candidates :: "string list" where
  "demo_candidates =
     [''/demo/src/a.ts'', ''/demo/.env'', ''/demo/docs/b.md'', ''/demo/config/secrets.yaml'',
      ''/demo/c.ts'']"

definition demo_workspace :: Workspace where
  "demo_workspace =
     \<lparr>workspaceFolders = [demo_folder],
      maxFiles = 4,
      maxBytesPerFile = 4,
      findFiles = (\<lambda>n. Some demo_candidates),
      asRelativePath = drop 6,
      stat = (\<lambda>u. Some \<lparr>stat_size = length (demo_content u), stat_mtime = 1000\<rparr>),
      readFile = (\<lambda>u. Some (demo_content u))\<rparr>"

definition demo_record_a :: FileInfo where
  "demo_record_a = \<lparr>path = ''src/a.ts'', size_bytes = 10, mtime = 1000,
     languageId = Some ''typescript'', sample = Some ''0123''\<rparr>"

definition demo_record_b :: FileInfo where
  "demo_record_b = \<lparr>path = ''docs/b.md'', size_bytes = 3, mtime = 1000,
     languageId = Some ''markdown'', sample = Some ''# B''\<rparr>"

text \<open>Its analysis when the hash is replaced by the identity, which shows the hashed text.\<close>

definition demo_analysis :: WorkspaceAnalysis where
  "demo_analysis =
     \<lparr>workspaceName = ''demo'', workspaceRoot = ''/demo'',
      fingerprint = ''docs/b.md|3|1000'' @ newline @ ''src/a.ts|10|1000'',
      fileCount = 2,
      files = [demo_record_a, demo_record_b]\<rparr>"

text \<open>
  A cache that holds, for the same folder, an analysis made when the folder had no files.
\<close>

definition stale_analysis :: WorkspaceAnalysis where
  "stale_analysis =
     \<lparr>workspaceName = ''demo'', workspaceRoot = ''/demo'', fingerprint = [], fileCount = 0,
      files = []\<rparr>"

definition stale_cache :: cache where
  "stale_cache = Map.empty(''file:///demo'' \<mapsto> stale_analysis)"

text \<open>The same folder read after its files have been removed: its analysis is \<open>stale_analysis\<close>.\<close>

definition empty_demo_workspace :: Workspace where
  "empty_demo_workspace = demo_workspace\<lparr>findFiles := (\<lambda>n. Some [])\<rparr>"

text \<open>A second folder, with no files.\<close>

definition other_workspace :: Workspace where
  "other_workspace =
     \<lparr>workspaceFolders = [\<lparr>name = ''other'', uri = ''file:///other'', fsPath = ''/other''\<rparr>],
      maxFiles = 4,
      maxBytesPerFile = 4,
      findFiles = (\<lambda>n. Some []),
      asRelativePath = drop 7,
      stat = (\<lambda>u. None),
      readFile = (\<lambda>u. None)\<rparr>"

text \<open>
  The number operations on integers: \<open>toString\<close> is the decimal numeral and \<open>toFixed(2)\<close>
  appends two zero decimals.
\<close>

definition int_ops :: "int numops" where
  "int_ops =
     \<lparr>num_toString = string_of_int,
      num_toFixed2 = (\<lambda>n. string_of_int n @ ''.00''),
      num_isZero = (\<lambda>n. n = 0)\<rparr>"

text \<open>Three answers, two of them for the same file.\<close>

definition answer1 :: "int QueryAnswer" where
  "answer1 = \<lparr>file = ''src/b.ts'', start_line = 3, end_line = 5, code = ''f()'', score = 2,
     explanation = ''calls f''\<rparr>"

definition answer2 :: "int QueryAnswer" where
  "answer2 = \<lparr>file = ''a.py'', start_line = 1, end_line = 1, code = ''pass'', score = 1,
     explanation = []\<rparr>"

definition answer3 :: "int QueryAnswer" where
  "answer3 = \<lparr>file = ''src/b.ts'', start_line = 9, end_line = 9, code = ''g()'', score = 1,
     explanation = ''calls g''\<rparr>"

text \<open>
  A backend whose request is aborted by the timer, and a backend that answers with
  status 200 and a given body.
\<close>

definition aborting_backend :: "int Backend" where
  "aborting_backend =
     \<lparr>serverUrl = ''http://localhost:8000'',
      requestTimeoutMs = 20000,
      fetch = (\<lambda>url request. Rejected
        \<lparr>err_name = ''AbortError'', err_message = Some ''This operation was aborted'',
         err_code = None\<rparr>)\<rparr>"


text \<open>
  A backend that cannot be reached, and a backend that answers with a failure status and
  a text.
\<close>

definition unreachable_backend :: "int Backend" where
  "unreachable_backend =
     \<lparr>serverUrl = ''http://localhost:8000'',
      requestTimeoutMs = 20000,
      fetch = (\<lambda>url request. Rejected
        \<lparr>err_name = ''TypeError'', err_message = Some ''fetch failed'', err_code = None\<rparr>)\<rparr>"

definition failing_backend :: "int \<Rightarrow> string \<Rightarrow> int Backend" where
  "failing_backend st errorText =
     \<lparr>serverUrl = ''http://localhost:8000'',
      requestTimeoutMs = 20000,
      fetch = (\<lambda>url request. Resolved
        \<lparr>ok = False, status = st, text_body = Inr errorText, json_body = Inr JNull\<rparr>)\<rparr>"





section \<open>Properties of the fingerprint\<close>

lemma sort_mset_cong: "mset xs = mset ys \<Longrightarrow> sort xs = sort (ys :: string list)"
  by (rule properties_for_sort) simp_all

lemma entry_factor: "entry f = (\<lambda>(p, s, m). p @ ''|'' @ string_of_nat s @ ''|'' @ string_of_nat m) (triple f)"
  by (simp add: triple_def entry_def)

lemma map_entry_factor:
  "map entry fs = map (\<lambda>(p, s, m). p @ ''|'' @ string_of_nat s @ ''|'' @ string_of_nat m) (map triple fs)"
  by (simp add: entry_factor)

lemma mset_entries:
  assumes "mset (map triple fs) = mset (map triple gs)"
  shows "mset (map entry fs) = mset (map entry gs)"
proof -
  let ?line = "\<lambda>(p, s, m). p @ ''|'' @ string_of_nat s @ ''|'' @ string_of_nat m"
  have "mset (map entry fs) = image_mset ?line (mset (map triple fs))"
    by (simp only: map_entry_factor mset_map)
  also have "\<dots> = image_mset ?line (mset (map triple gs))"
    using assms by simp
  also have "\<dots> = mset (map entry gs)"
    by (simp only: map_entry_factor mset_map)
  finally show ?thesis .
qed

text \<open>
  Claim C1. The fingerprint does not depend on the order of the records: two lists that
  are permutations of each other, and more generally two lists with the same multiset of
  (path, size, mtime) triples, have the same fingerprint, whatever the hash function.
\<close>

theorem fingerprint_order_independent:
  "(mset fs = mset gs \<longrightarrow> computeFingerprint sha256_hex fs = computeFingerprint sha256_hex gs) \<and>
   (mset (map triple fs) = mset (map triple gs) \<longrightarrow>
      computeFingerprint sha256_hex fs = computeFingerprint sha256_hex gs)"
proof -
  have main: "computeFingerprint sha256_hex fs = computeFingerprint sha256_hex gs"
    if "mset (map triple fs) = mset (map triple gs)"
    using sort_mset_cong [OF mset_entries [OF that]] by (simp add: computeFingerprint_def)
  have "mset (map triple fs) = mset (map triple gs)" if "mset fs = mset gs"
    using that by (metis mset_map)
  with main show ?thesis by blast
qed

theorem fingerprint_order_independent_witness:
  "mset [file_a, file_b] = mset [file_b, file_a] \<and>
   mset (map triple [file_a, file_b]) = mset (map triple [file_b, file_a]) \<and>
   computeFingerprint (\<lambda>s. s) [file_a, file_b] = computeFingerprint (\<lambda>s. s) [file_b, file_a] \<and>
   computeFingerprint (\<lambda>s. s) [file_b, file_a] = ''a.ts|100|1000'' @ newline @ ''b.ts|200|2000''"
proof -
  have perm: "mset [file_a, file_b] = mset [file_b, file_a]"
    by (simp add: add_mset_commute)
  have triples: "mset (map triple [file_a, file_b]) = mset (map triple [file_b, file_a])"
    by (simp add: add_mset_commute)
  have val: "computeFingerprint (\<lambda>s. s) [file_b, file_a] = ''a.ts|100|1000'' @ newline @ ''b.ts|200|2000''"
    by code_simp
  from fingerprint_order_independent [of "[file_a, file_b]" "[file_b, file_a]" "\<lambda>s. s"] perm
  have "computeFingerprint (\<lambda>s. s) [file_a, file_b] = computeFingerprint (\<lambda>s. s) [file_b, file_a]"
    by blast
  with perm triples val show ?thesis by blast
qed

lemma same_metadata_entry: "same_metadata f g \<Longrightarrow> entry f = entry g"
  by (simp add: same_metadata_def entry_def)

text \<open>
  Claim C2. Two lists whose records agree one by one on path, size and mtime have the
  same fingerprint, whatever their \<open>sample\<close> and \<open>languageId\<close> fields are.
\<close>

theorem fingerprint_ignores_sample:
  assumes "list_all2 same_metadata fs gs"
  shows "computeFingerprint sha256_hex fs = computeFingerprint sha256_hex gs"
proof -
  from assms have "map entry fs = map entry gs"
  proof (induction rule: list_all2_induct)
    case Nil
    show ?case by simp
  next
    case (Cons f fs g gs)
    from Cons.hyps(1) have "entry f = entry g" by (rule same_metadata_entry)
    with Cons.IH show ?case by simp
  qed
  then show ?thesis by (simp add: computeFingerprint_def)
qed

theorem fingerprint_ignores_sample_witness:
  "list_all2 same_metadata [file_a, file_b]
     [file_a\<lparr>sample := None\<rparr>, file_b\<lparr>languageId := None, sample := Some ''x''\<rparr>] \<and>
   computeFingerprint (\<lambda>s. s) [file_a, file_b] =
   computeFingerprint (\<lambda>s. s)
     [file_a\<lparr>sample := None\<rparr>, file_b\<lparr>languageId := None, sample := Some ''x''\<rparr>]"
proof -
  have h: "list_all2 same_metadata [file_a, file_b]
     [file_a\<lparr>sample := None\<rparr>, file_b\<lparr>languageId := None, sample := Some ''x''\<rparr>]"
    by (simp add: same_metadata_def)
  from fingerprint_ignores_sample [OF h, of "\<lambda>s. s"] h show ?thesis by blast
qed

section \<open>Properties of the analysis\<close>

lemma collectFiles_map_filter:
  "collectFiles w us acc = acc @ List.map_filter (processFile w) us"
  by (induction us arbitrary: acc) (simp_all add: List.map_filter_simps split: option.split)

lemma files_buildAnalysis:
  "files (buildAnalysis sha w folder found) = List.map_filter (processFile w) (slice0 found (maxFiles w))"
  by (simp add: buildAnalysis_def Let_def collectFiles_map_filter)

lemma fileCount_buildAnalysis:
  "fileCount (buildAnalysis sha w folder found) = length (files (buildAnalysis sha w folder found))"
  by (simp add: buildAnalysis_def Let_def)

lemma processFile_path:
  assumes "processFile w u = Some fi"
  shows "path fi = asRelativePath w u \<and> \<not> isSensitiveFile (asRelativePath w u)"
proof (cases "isSensitiveFile (asRelativePath w u)")
  case True
  with assms show ?thesis by (simp add: processFile_def)
next
  case False
  show ?thesis
  proof (cases "stat w u")
    case None
    with assms False show ?thesis by (simp add: processFile_def)
  next
    case (Some st)
    show ?thesis
    proof (cases "readFile w u")
      case None
      with assms False Some show ?thesis
        by (auto simp add: processFile_def Let_def split: if_split_asm)
    next
      case (Some content)
      with assms False \<open>stat w u = Some st\<close> show ?thesis
        by (auto simp add: processFile_def Let_def split: if_split_asm)
    qed
  qed
qed

lemma set_map_filter: "set (List.map_filter f xs) = {y. \<exists>x\<in>set xs. f x = Some y}"
  by (induction xs) (auto simp: List.map_filter_simps split: option.splits)

lemma length_map_filter_le: "length (List.map_filter f xs) \<le> length xs"
  by (simp add: List.map_filter_def)

lemma length_slice0: "0 \<le> n \<Longrightarrow> int (length (slice0 xs n)) \<le> n"
  by (simp add: slice0_def)

lemma built_not_sensitive:
  "fi \<in> set (files (buildAnalysis sha w folder found)) \<Longrightarrow> \<not> isSensitiveFile (path fi)"
  by (auto simp: files_buildAnalysis set_map_filter dest: processFile_path)

lemma built_within:
  assumes "0 \<le> maxFiles w"
  shows "int (length (files (buildAnalysis sha w folder found))) \<le> maxFiles w"
proof -
  have "length (files (buildAnalysis sha w folder found)) \<le> length (slice0 found (maxFiles w))"
    by (simp add: files_buildAnalysis length_map_filter_le)
  with length_slice0 [OF assms, of found] show ?thesis by linarith
qed

lemma cacheKey_None: "cacheKey w = None \<longleftrightarrow> workspaceFolders w = []"
  by (simp add: cacheKey_def split: list.split)

lemma cacheKey_SomeD:
  "cacheKey w = Some k \<Longrightarrow> \<exists>folder rest. workspaceFolders w = folder # rest \<and> uri folder = k"
  by (auto simp: cacheKey_def split: list.splits)

lemma analyze_cases:
  obtains (nofolder) "workspaceFolders w = []" "analyzeWorkspace sha w c = (None, c)"
  | (hit) folder rest cached where "workspaceFolders w = folder # rest" "c (uri folder) = Some cached"
      "analyzeWorkspace sha w c = (Some cached, c)"
  | (failed) folder rest where "workspaceFolders w = folder # rest" "c (uri folder) = None"
      "findFiles w (maxFiles w) = None" "analyzeWorkspace sha w c = (None, c)"
  | (built) folder rest found where "workspaceFolders w = folder # rest" "c (uri folder) = None"
      "findFiles w (maxFiles w) = Some found"
      "analyzeWorkspace sha w c =
         (Some (buildAnalysis sha w folder found), c(uri folder \<mapsto> buildAnalysis sha w folder found))"
  by (cases "workspaceFolders w"; cases "c (uri (hd (workspaceFolders w)))";
      cases "findFiles w (maxFiles w)")
     (auto simp: analyzeWorkspace_def analyzeWorkspace_begin_def analyzeWorkspace_end_def Let_def)

lemma begin_cases:
  obtains (nofolder) "workspaceFolders w = []" "analyzeWorkspace_begin sha w c = Finished None"
  | (hit) folder rest cached where "workspaceFolders w = folder # rest" "c (uri folder) = Some cached"
      "analyzeWorkspace_begin sha w c = Finished (Some cached)"
  | (failed) folder rest where "workspaceFolders w = folder # rest" "c (uri folder) = None"
      "findFiles w (maxFiles w) = None" "analyzeWorkspace_begin sha w c = Finished None"
  | (built) folder rest found where "workspaceFolders w = folder # rest" "c (uri folder) = None"
      "findFiles w (maxFiles w) = Some found"
      "analyzeWorkspace_begin sha w c = Pending (uri folder) (buildAnalysis sha w folder found)"
  by (cases "workspaceFolders w"; cases "c (uri (hd (workspaceFolders w)))";
      cases "findFiles w (maxFiles w)")
     (auto simp: analyzeWorkspace_begin_def Let_def)

lemma begin_pending:
  assumes "analyzeWorkspace_begin sha w c = Pending k a"
  shows "cacheKey w = Some k \<and> c k = None \<and> (\<exists>folder found. a = buildAnalysis sha w folder found)"
  using assms by (cases rule: begin_cases [of w sha c]) (auto simp: cacheKey_def)

lemma rebuildAnalysis_atomic:
  "rebuildAnalysis sha w c =
     (case workspaceFolders w of
        [] \<Rightarrow> c
      | folder # _ \<Rightarrow> snd (analyzeWorkspace sha w (c(uri folder := None))))"
  by (simp add: rebuildAnalysis_def rebuildAnalysis_begin_def analyzeWorkspace_def
      analyzeWorkspace_end_def Let_def split: list.split)

lemma rebuild_begin_cases:
  obtains (nofolder) "workspaceFolders w = []" "rebuildAnalysis_begin sha w c = (c, Finished None)"
  | (folder) folder rest where "workspaceFolders w = folder # rest"
      "rebuildAnalysis_begin sha w c =
         (c(uri folder := None), analyzeWorkspace_begin sha w (c(uri folder := None)))"
  by (cases "workspaceFolders w") (auto simp: rebuildAnalysis_begin_def Let_def)

lemma analyze_cache_all:
  assumes "cache_all P c" and "\<And>folder found. P (buildAnalysis sha w folder found)"
  shows "cache_all P (snd (analyzeWorkspace sha w c))"
  using assms by (cases rule: analyze_cases [of w sha c]) (auto simp: cache_all_def)

lemma analyze_result_all:
  assumes "cache_all P c" and "\<And>folder found. P (buildAnalysis sha w folder found)"
    and "fst (analyzeWorkspace sha w c) = Some A"
  shows "P A"
  using assms by (cases rule: analyze_cases [of w sha c]) (auto simp: cache_all_def)

lemma cache_all_delete: "cache_all P c \<Longrightarrow> cache_all P (c(k := None))"
  by (auto simp: cache_all_def)

lemma cache_all_store: "cache_all P c \<Longrightarrow> P a \<Longrightarrow> cache_all P (c(k \<mapsto> a))"
  by (auto simp: cache_all_def)

lemma launch_all:
  assumes "in_flight_all P running" and "\<And>k a. p = Pending k a \<Longrightarrow> P a"
  shows "in_flight_all P (launch p running)"
  using assms by (cases p) (auto simp: launch_def in_flight_all_def)

lemma begin_launch_all:
  assumes "in_flight_all P running" and "\<And>folder found. P (buildAnalysis sha w folder found)"
  shows "in_flight_all P (launch (analyzeWorkspace_begin sha w c) running)"
  using assms(1)
proof (rule launch_all)
  fix k a assume "analyzeWorkspace_begin sha w c = Pending k a"
  then obtain folder found where "a = buildAnalysis sha w folder found"
    using begin_pending by blast
  with assms(2) show "P a" by simp
qed

lemma in_flight_all_remove1:
  "in_flight_all P running \<Longrightarrow> in_flight_all P (remove1 p running)"
  by (auto simp: in_flight_all_def list_all_iff dest: notin_set_remove1)

lemma step_all:
  assumes "cache_all P c" and "in_flight_all P running"
    and "\<And>w folder found. w \<in> set (event_workspaces ev) \<Longrightarrow> P (buildAnalysis sha w folder found)"
  shows "cache_all P (fst (step sha (c, running) ev)) \<and>
         in_flight_all P (snd (step sha (c, running) ev))"
proof (cases ev)
  case (Analyze w)
  with assms show ?thesis by (simp add: analyze_cache_all)
next
  case (Rebuild w)
  with assms show ?thesis
    by (auto simp: rebuildAnalysis_atomic split: list.split
        intro!: analyze_cache_all cache_all_delete)
next
  case FoldersChanged
  with assms(2) show ?thesis by (simp add: onDidChangeWorkspaceFolders_def cache_all_def)
next
  case Deactivate
  with assms(2) show ?thesis by (simp add: deactivate_def cache_all_def)
next
  case (AnalyzeBegin w)
  with assms show ?thesis by (simp add: begin_launch_all)
next
  case (RebuildBegin w)
  show ?thesis
  proof (cases rule: rebuild_begin_cases [of w sha c])
    case nofolder
    with RebuildBegin assms(1,2) show ?thesis by (simp add: launch_def)
  next
    case (folder folder rest)
    with RebuildBegin assms show ?thesis by (simp add: cache_all_delete begin_launch_all)
  qed
next
  case (AnalyzeEnd k a)
  show ?thesis
  proof (cases "(k, a) \<in> set running")
    case True
    with assms(2) have "P a" by (auto simp: in_flight_all_def list_all_iff)
    with True AnalyzeEnd assms(1,2) show ?thesis
      by (simp add: analyzeWorkspace_end_def cache_all_store in_flight_all_remove1)
  next
    case False
    with AnalyzeEnd assms(1,2) show ?thesis by simp
  qed
qed

lemma foldl_step_all:
  assumes "cache_all P (fst st)" and "in_flight_all P (snd st)"
    and "\<And>w folder found. w \<in> set (concat (map event_workspaces evs)) \<Longrightarrow>
           P (buildAnalysis sha w folder found)"
  shows "cache_all P (fst (foldl (step sha) st evs)) \<and>
         in_flight_all P (snd (foldl (step sha) st evs))"
  using assms
proof (induction evs arbitrary: st)
  case Nil
  then show ?case by simp
next
  case (Cons ev evs)
  obtain c running where st: "st = (c, running)" by (cases st)
  have one: "cache_all P (fst (step sha st ev)) \<and> in_flight_all P (snd (step sha st ev))"
    unfolding st using Cons.prems st by (intro step_all) auto
  have "cache_all P (fst (foldl (step sha) (step sha st ev) evs)) \<and>
        in_flight_all P (snd (foldl (step sha) (step sha st ev) evs))"
  proof (rule Cons.IH)
    show "cache_all P (fst (step sha st ev))" using one by simp
    show "in_flight_all P (snd (step sha st ev))" using one by simp
    show "P (buildAnalysis sha w folder found)"
      if "w \<in> set (concat (map event_workspaces evs))" for w folder found
      using that Cons.prems(3) [of w folder found] by auto
  qed
  then show ?case by simp
qed

lemma session_cache_all:
  assumes "\<And>w folder found. w \<in> set (concat (map event_workspaces evs)) \<Longrightarrow>
           P (buildAnalysis sha w folder found)"
  shows "cache_all P (session sha evs)"
proof -
  have "cache_all P (fst (foldl (step sha) (Map.empty, []) evs)) \<and>
        in_flight_all P (snd (foldl (step sha) (Map.empty, []) evs))"
    using assms by (intro foldl_step_all) (auto simp: cache_all_def in_flight_all_def)
  then show ?thesis by (simp add: session_def session_state_def)
qed

lemma components_nonempty: "components s \<noteq> []"
  by (induction s) (auto split: list.splits)

lemma components_head:
  assumes "components s = x # xs"
  shows "slash \<notin> set x \<and> (s = x \<and> xs = [] \<or> (\<exists>rest. s = x @ slash # rest \<and> components rest = xs))"
  using assms
proof (induction s arbitrary: x xs)
  case Nil
  then show ?case by simp
next
  case (Cons c cs)
  show ?case
  proof (cases "c = slash")
    case True
    with Cons.prems show ?thesis by auto
  next
    case False
    from components_nonempty [of cs] obtain y ys where cs: "components cs = y # ys"
      by (cases "components cs") auto
    with False Cons.prems have x: "x = c # y" "xs = ys" by auto
    from Cons.IH [OF cs] False x show ?thesis by auto
  qed
qed

lemma prefix_no_slash:
  assumes "slash \<notin> set w"
  shows "prefix w (x @ slash # rest) \<longleftrightarrow> prefix w x"
proof
  assume "prefix w (x @ slash # rest)"
  then have "prefix w x \<or> (\<exists>us. prefix us (slash # rest) \<and> w = x @ us)"
    unfolding prefix_append by blast
  then show "prefix w x"
  proof
    assume "prefix w x"
    then show ?thesis .
  next
    assume "\<exists>us. prefix us (slash # rest) \<and> w = x @ us"
    then obtain us where us: "prefix us (slash # rest)" "w = x @ us" by blast
    show ?thesis
    proof (cases us)
      case Nil
      with us show ?thesis by simp
    next
      case (Cons u us')
      with us(1) have "u = slash" by simp
      with Cons us(2) assms show ?thesis by simp
    qed
  qed
next
  assume "prefix w x"
  then show "prefix w (x @ slash # rest)" by (rule prefix_prefix)
qed

lemma sublist_components:
  assumes "slash \<notin> set w"
  shows "sublist w s \<longleftrightarrow> (\<exists>c\<in>set (components s). sublist w c)"
proof (induction s)
  case Nil
  show ?case by simp
next
  case (Cons c cs)
  show ?case
  proof (cases "c = slash")
    case True
    have "prefix w (slash # cs) \<longleftrightarrow> w = []"
      using assms by (cases w) auto
    with True Cons.IH show ?thesis by (auto simp: sublist_Cons_right)
  next
    case False
    from components_nonempty [of cs] obtain y ys where cs: "components cs = y # ys"
      by (cases "components cs") auto
    from components_head [OF cs] have
      shape: "cs = y \<and> ys = [] \<or> (\<exists>rest. cs = y @ slash # rest \<and> components rest = ys)"
      by blast
    have pre: "prefix w (c # cs) \<longleftrightarrow> prefix w (c # y)"
    proof -
      from shape consider "cs = y" | rest where "cs = y @ slash # rest" by blast
      then show ?thesis
      proof cases
        case 1
        then show ?thesis by simp
      next
        case 2
        then have "c # cs = (c # y) @ slash # rest" by simp
        then show ?thesis using prefix_no_slash [OF assms, of "c # y" rest] by simp
      qed
    qed
    have "sublist w (c # cs) \<longleftrightarrow> prefix w (c # cs) \<or> sublist w cs"
      by (rule sublist_Cons_right)
    also have "\<dots> \<longleftrightarrow> prefix w (c # y) \<or> (\<exists>d\<in>set (y # ys). sublist w d)"
      using pre Cons.IH cs by simp
    also have "\<dots> \<longleftrightarrow> (prefix w (c # y) \<or> sublist w y) \<or> (\<exists>d\<in>set ys. sublist w d)"
      by auto
    also have "\<dots> \<longleftrightarrow> sublist w (c # y) \<or> (\<exists>d\<in>set ys. sublist w d)"
      by (simp add: sublist_Cons_right)
    also have "\<dots> \<longleftrightarrow> (\<exists>d\<in>set (components (c # cs)). sublist w d)"
      using False cs by simp
    finally show ?thesis .
  qed
qed

lemma directory_secrets:
  "(\<exists>c\<in>set (components d). sublist ''secrets'' c) \<longleftrightarrow> sublist ''secrets'' d"
  by (rule sublist_components [symmetric]) (simp add: slash_def)

lemma directory_credentials:
  "(\<exists>c\<in>set (components d). sublist ''credentials'' c) \<longleftrightarrow> sublist ''credentials'' d"
  by (rule sublist_components [symmetric]) (simp add: slash_def)

lemma isSensitiveFile_patterns: "isSensitiveFile p = matchesSensitivePattern p"
proof -
  have "matchesSensitivePattern p \<longleftrightarrow>
     (let n = replaceBackslashes (toLowerCase p); b = basename n; d = dirname n
      in b = ''.env'' \<or> prefix ''.env.'' b \<or> sublist ''secrets'' b \<or> sublist ''credentials'' b \<or>
         prefix ''id_rsa'' b \<or>
         endsWith b ''.pfx'' \<or> endsWith b ''.pem'' \<or> endsWith b ''.key'' \<or> endsWith b ''.p12'' \<or>
         sublist ''secrets'' d \<or> sublist ''credentials'' d)"
    by (simp only: matchesSensitivePattern_def Let_def startsWith_def includes_str_def
        bex_disj_distrib directory_secrets directory_credentials)
  also have "\<dots> \<longleftrightarrow> isSensitiveFile p"
    by (auto simp: isSensitiveFile_def Let_def startsWith_def includes_str_def)
  finally show ?thesis by simp
qed

lemma demo_analysis_value:
  "fst (analyzeWorkspace (\<lambda>s. s) demo_workspace
     (session (\<lambda>s. s) [Analyze demo_workspace, Analyze other_workspace, Rebuild demo_workspace])) =
   Some demo_analysis"
  by code_simp

text \<open>
  Claim C3. In every session (any sequence of analyses and rebuilds, interleaved or not,
  and cache clears after the start with an empty cache), an analysis returned by
  \<open>analyzeWorkspace\<close> has no record for a path that matches a sensitive pattern, and so
  no sample of such a file, whatever its extension. The paths that match a pattern are
  those \<open>isSensitiveFile\<close> accepts.
\<close>

theorem sensitive_never_recorded:
  assumes "fst (analyzeWorkspace sha256_hex w (session sha256_hex evs)) = Some A"
    and "matchesSensitivePattern p"
  shows "p \<notin> path ` set (files A)"
proof -
  let ?P = "\<lambda>A. \<forall>fi\<in>set (files A). \<not> isSensitiveFile (path fi)"
  have inv: "cache_all ?P (session sha256_hex evs)"
    by (rule session_cache_all) (auto dest: built_not_sensitive)
  have "?P A"
  proof (rule analyze_result_all [where P = ?P and A = A])
    show "fst (analyzeWorkspace sha256_hex w (session sha256_hex evs)) = Some A" by (rule assms(1))
  qed (use inv in \<open>auto dest: built_not_sensitive\<close>)
  moreover from assms(2) have "isSensitiveFile p" by (simp add: isSensitiveFile_patterns)
  ultimately show ?thesis by auto
qed

theorem sensitive_never_recorded_witness:
  "fst (analyzeWorkspace (\<lambda>s. s) demo_workspace
     (session (\<lambda>s. s) [Analyze demo_workspace, Analyze other_workspace, Rebuild demo_workspace])) =
   Some demo_analysis \<and>
   matchesSensitivePattern ''config/secrets.yaml'' \<and>
   ''config/secrets.yaml'' \<notin> path ` set (files demo_analysis) \<and>
   matchesSensitivePattern ''.env'' \<and>
   ''.env'' \<notin> path ` set (files demo_analysis)"
proof -
  have s1: "matchesSensitivePattern ''config/secrets.yaml''" by code_simp
  have s2: "matchesSensitivePattern ''.env''" by code_simp
  from sensitive_never_recorded [OF demo_analysis_value s1]
    sensitive_never_recorded [OF demo_analysis_value s2] demo_analysis_value s1 s2
  show ?thesis by blast
qed

lemma processFile_sampled:
  assumes "\<not> isSensitiveFile (asRelativePath w u)"
    and "stat w u = Some st"
    and "toLowerCase (extname (asRelativePath w u)) \<in> set TEXT_FILE_EXTENSIONS"
    and "0 < stat_size st" and "int (stat_size st) \<le> maxBytesPerFile w * 10"
    and "readFile w u = Some content"
  shows "\<exists>fi. processFile w u = Some fi \<and> path fi = asRelativePath w u \<and>
           sample fi = Some (if int (length content) > maxBytesPerFile w
                             then take (nat (maxBytesPerFile w)) content else content)"
  using assms by (simp add: processFile_def Let_def substring0_def)

text \<open>
  Claim C5. When an analysis is built and a file of it is read for sampling (the file is
  not sensitive, its extension is in the allow-list, its size is positive and at most ten
  times \<open>maxBytesPerFile\<close>, and reading succeeds with a text), the record of the file in the
  analysis has a sample: the first \<open>maxBytesPerFile\<close> characters of the text if the text is
  longer than that, and the whole text otherwise.
\<close>

theorem sample_truncation:
  assumes "cacheKey w = Some k" and "c k = None"
    and "findFiles w (maxFiles w) = Some found"
    and "u \<in> set (slice0 found (maxFiles w))"
    and "\<not> isSensitiveFile (asRelativePath w u)"
    and "stat w u = Some st"
    and "toLowerCase (extname (asRelativePath w u)) \<in> set TEXT_FILE_EXTENSIONS"
    and "0 < stat_size st" and "int (stat_size st) \<le> maxBytesPerFile w * 10"
    and "readFile w u = Some content"
  shows "\<exists>A fi s. fst (analyzeWorkspace sha256_hex w c) = Some A \<and> fi \<in> set (files A) \<and>
           processFile w u = Some fi \<and> path fi = asRelativePath w u \<and> sample fi = Some s \<and>
           (int (length content) > maxBytesPerFile w \<longrightarrow>
              int (length s) = maxBytesPerFile w \<and> s = take (length s) content) \<and>
           (int (length content) \<le> maxBytesPerFile w \<longrightarrow> s = content)"
proof -
  from assms(1) obtain folder rest where folder: "workspaceFolders w = folder # rest" "uri folder = k"
    by (auto dest: cacheKey_SomeD)
  let ?A = "buildAnalysis sha256_hex w folder found"
  have res: "fst (analyzeWorkspace sha256_hex w c) = Some ?A"
    using folder assms(2,3)
    by (simp add: analyzeWorkspace_def analyzeWorkspace_begin_def analyzeWorkspace_end_def Let_def)
  let ?s = "if int (length content) > maxBytesPerFile w
            then take (nat (maxBytesPerFile w)) content else content"
  from processFile_sampled [OF assms(5-10)] obtain fi where
    fi: "processFile w u = Some fi" "path fi = asRelativePath w u" "sample fi = Some ?s"
    by blast
  have mem: "fi \<in> set (files ?A)"
    using assms(4) fi(1) by (auto simp: files_buildAnalysis set_map_filter)
  have pos: "0 < maxBytesPerFile w"
    using assms(8,9) by linarith
  have long: "int (length ?s) = maxBytesPerFile w \<and> ?s = take (length ?s) content"
    if "int (length content) > maxBytesPerFile w"
    using that pos by (simp add: min_def)
  have short: "?s = content" if "int (length content) \<le> maxBytesPerFile w"
    using that by simp
  from res mem fi long short show ?thesis by blast
qed

theorem sample_truncation_witness:
  "cacheKey demo_workspace = Some ''file:///demo'' \<and>
   (Map.empty :: cache) ''file:///demo'' = None \<and>
   findFiles demo_workspace (maxFiles demo_workspace) = Some demo_candidates \<and>
   ''/demo/src/a.ts'' \<in> set (slice0 demo_candidates (maxFiles demo_workspace)) \<and>
   \<not> isSensitiveFile (asRelativePath demo_workspace ''/demo/src/a.ts'') \<and>
   stat demo_workspace ''/demo/src/a.ts'' = Some \<lparr>stat_size = 10, stat_mtime = 1000\<rparr> \<and>
   toLowerCase (extname (asRelativePath demo_workspace ''/demo/src/a.ts'')) \<in>
     set TEXT_FILE_EXTENSIONS \<and>
   0 < stat_size \<lparr>stat_size = 10, stat_mtime = 1000\<rparr> \<and>
   int (stat_size \<lparr>stat_size = 10, stat_mtime = 1000\<rparr>) \<le> maxBytesPerFile demo_workspace * 10 \<and>
   readFile demo_workspace ''/demo/src/a.ts'' = Some ''0123456789'' \<and>
   int (length ''0123456789'') > maxBytesPerFile demo_workspace \<and>
   (\<exists>A fi s. fst (analyzeWorkspace (\<lambda>s. s) demo_workspace Map.empty) = Some A \<and>
      fi \<in> set (files A) \<and> processFile demo_workspace ''/demo/src/a.ts'' = Some fi \<and>
      path fi = ''src/a.ts'' \<and> sample fi = Some s \<and> s = ''0123'') \<and>
   ''/demo/docs/b.md'' \<in> set (slice0 demo_candidates (maxFiles demo_workspace)) \<and>
   \<not> isSensitiveFile (asRelativePath demo_workspace ''/demo/docs/b.md'') \<and>
   stat demo_workspace ''/demo/docs/b.md'' = Some \<lparr>stat_size = 3, stat_mtime = 1000\<rparr> \<and>
   toLowerCase (extname (asRelativePath demo_workspace ''/demo/docs/b.md'')) \<in>
     set TEXT_FILE_EXTENSIONS \<and>
   0 < stat_size \<lparr>stat_size = 3, stat_mtime = 1000\<rparr> \<and>
   int (stat_size \<lparr>stat_size = 3, stat_mtime = 1000\<rparr>) \<le> maxBytesPerFile demo_workspace * 10 \<and>
   readFile demo_workspace ''/demo/docs/b.md'' = Some ''# B'' \<and>
   int (length ''# B'') \<le> maxBytesPerFile demo_workspace \<and>
   (\<exists>A fi s. fst (analyzeWorkspace (\<lambda>s. s) demo_workspace Map.empty) = Some A \<and>
      fi \<in> set (files A) \<and> processFile demo_workspace ''/demo/docs/b.md'' = Some fi \<and>
      path fi = ''docs/b.md'' \<and> sample fi = Some s \<and> s = ''# B'')"
proof -
  let ?sa = "\<lparr>stat_size = 10, stat_mtime = 1000\<rparr>"
  let ?sb = "\<lparr>stat_size = 3, stat_mtime = 1000\<rparr>"
  have cap: "maxBytesPerFile demo_workspace = 4"
    by (simp add: demo_workspace_def)
  have h1: "cacheKey demo_workspace = Some ''file:///demo''" by code_simp
  have h2: "(Map.empty :: cache) ''file:///demo'' = None" by simp
  have h3: "findFiles demo_workspace (maxFiles demo_workspace) = Some demo_candidates"
    by (simp add: demo_workspace_def)
  have a4: "''/demo/src/a.ts'' \<in> set (slice0 demo_candidates (maxFiles demo_workspace))"
    by code_simp
  have a5: "\<not> isSensitiveFile (asRelativePath demo_workspace ''/demo/src/a.ts'')" by code_simp
  have a6: "stat demo_workspace ''/demo/src/a.ts'' = Some ?sa" by code_simp
  have a7: "toLowerCase (extname (asRelativePath demo_workspace ''/demo/src/a.ts'')) \<in>
     set TEXT_FILE_EXTENSIONS" by code_simp
  have a8: "0 < stat_size ?sa" by simp
  have a9: "int (stat_size ?sa) \<le> maxBytesPerFile demo_workspace * 10"
    by (simp add: cap)
  have a10: "readFile demo_workspace ''/demo/src/a.ts'' = Some ''0123456789''" by code_simp
  have long: "int (length ''0123456789'') > maxBytesPerFile demo_workspace"
    by (simp add: cap)
  have rel_a: "asRelativePath demo_workspace ''/demo/src/a.ts'' = ''src/a.ts''"
    by (simp add: demo_workspace_def)
  from sample_truncation [OF h1 h2 h3 a4 a5 a6 a7 a8 a9 a10, of "\<lambda>s. s"]
  obtain A fi s where r:
    "fst (analyzeWorkspace (\<lambda>s. s) demo_workspace Map.empty) = Some A" "fi \<in> set (files A)"
    "processFile demo_workspace ''/demo/src/a.ts'' = Some fi"
    "path fi = asRelativePath demo_workspace ''/demo/src/a.ts''" "sample fi = Some s"
    "int (length ''0123456789'') > maxBytesPerFile demo_workspace \<longrightarrow>
       int (length s) = maxBytesPerFile demo_workspace \<and> s = take (length s) ''0123456789''"
    by blast
  from r(6) long have both:
    "int (length s) = maxBytesPerFile demo_workspace \<and> s = take (length s) ''0123456789''"
    by blast
  from conjunct1 [OF both] cap have len: "length s = 4" by simp
  from conjunct2 [OF both] have "s = take 4 ''0123456789''" unfolding len .
  then have "s = ''0123''" by simp
  with r rel_a have first: "\<exists>A fi s. fst (analyzeWorkspace (\<lambda>s. s) demo_workspace Map.empty) = Some A \<and>
      fi \<in> set (files A) \<and> processFile demo_workspace ''/demo/src/a.ts'' = Some fi \<and>
      path fi = ''src/a.ts'' \<and> sample fi = Some s \<and> s = ''0123''"
    by auto
  have b4: "''/demo/docs/b.md'' \<in> set (slice0 demo_candidates (maxFiles demo_workspace))"
    by code_simp
  have b5: "\<not> isSensitiveFile (asRelativePath demo_workspace ''/demo/docs/b.md'')" by code_simp
  have b6: "stat demo_workspace ''/demo/docs/b.md'' = Some ?sb" by code_simp
  have b7: "toLowerCase (extname (asRelativePath demo_workspace ''/demo/docs/b.md'')) \<in>
     set TEXT_FILE_EXTENSIONS" by code_simp
  have b8: "0 < stat_size ?sb" by simp
  have b9: "int (stat_size ?sb) \<le> maxBytesPerFile demo_workspace * 10"
    by (simp add: cap)
  have b10: "readFile demo_workspace ''/demo/docs/b.md'' = Some ''# B''" by code_simp
  have short: "int (length ''# B'') \<le> maxBytesPerFile demo_workspace"
    by (simp add: cap)
  have rel_b: "asRelativePath demo_workspace ''/demo/docs/b.md'' = ''docs/b.md''"
    by (simp add: demo_workspace_def)
  from sample_truncation [OF h1 h2 h3 b4 b5 b6 b7 b8 b9 b10, of "\<lambda>s. s"]
  obtain B fj t where q:
    "fst (analyzeWorkspace (\<lambda>s. s) demo_workspace Map.empty) = Some B" "fj \<in> set (files B)"
    "processFile demo_workspace ''/demo/docs/b.md'' = Some fj"
    "path fj = asRelativePath demo_workspace ''/demo/docs/b.md''" "sample fj = Some t"
    "int (length ''# B'') \<le> maxBytesPerFile demo_workspace \<longrightarrow> t = ''# B''"
    by blast
  from q(6) short have "t = ''# B''" by blast
  with q rel_b have second: "\<exists>A fi s. fst (analyzeWorkspace (\<lambda>s. s) demo_workspace Map.empty) = Some A \<and>
      fi \<in> set (files A) \<and> processFile demo_workspace ''/demo/docs/b.md'' = Some fi \<and>
      path fi = ''docs/b.md'' \<and> sample fi = Some s \<and> s = ''# B''"
    by auto
  from h1 h2 h3 a4 a5 a6 a7 a8 a9 a10 long first b4 b5 b6 b7 b8 b9 b10 short second
  show ?thesis by blast
qed

text \<open>
  Claim C6. With \<open>maxFiles = N\<close>, \<open>N\<close> not negative: an analysis that \<open>analyzeWorkspace\<close>
  builds (nothing is cached for the folder) has at most \<open>N\<close> records, however many
  candidates \<open>findFiles\<close> returned, and in a session in which \<open>maxFiles\<close> has been \<open>N\<close>
  throughout, every analysis it returns, built or cached, has at most \<open>N\<close> records. In
  both cases \<open>fileCount\<close> is the length of \<open>files\<close>.
\<close>

theorem analysis_ceiling:
  assumes "0 \<le> maxFiles w"
  shows "(cacheKey w = Some k \<and> c k = None \<and> fst (analyzeWorkspace sha256_hex w c) = Some A \<longrightarrow>
            int (length (files A)) \<le> maxFiles w \<and> fileCount A = length (files A)) \<and>
         ((\<forall>w' \<in> set (concat (map event_workspaces evs)). maxFiles w' = maxFiles w) \<and>
          fst (analyzeWorkspace sha256_hex w (session sha256_hex evs)) = Some B \<longrightarrow>
            int (length (files B)) \<le> maxFiles w \<and> fileCount B = length (files B))"
proof -
  let ?P = "\<lambda>A. int (length (files A)) \<le> maxFiles w \<and> fileCount A = length (files A)"
  have bounded: "?P (buildAnalysis sha256_hex w' folder found)" if "maxFiles w' = maxFiles w"
    for w' folder found
    using built_within [of w' sha256_hex folder found] assms that
    by (simp add: fileCount_buildAnalysis)
  have first: "?P A"
    if "cacheKey w = Some k" "c k = None" "fst (analyzeWorkspace sha256_hex w c) = Some A"
  proof (cases rule: analyze_cases [of w sha256_hex c])
    case (built folder rest found)
    with that(3) have "A = buildAnalysis sha256_hex w folder found" by simp
    with bounded [of w folder found] show ?thesis by simp
  qed (use that in \<open>auto simp: cacheKey_def\<close>)
  have second: "?P B"
    if same: "\<forall>w' \<in> set (concat (map event_workspaces evs)). maxFiles w' = maxFiles w"
      and res: "fst (analyzeWorkspace sha256_hex w (session sha256_hex evs)) = Some B"
  proof (rule analyze_result_all [where P = ?P and A = B])
    show "cache_all ?P (session sha256_hex evs)"
      by (rule session_cache_all) (use same bounded in blast)
    show "?P (buildAnalysis sha256_hex w folder found)" for folder found
      by (rule bounded) simp
    show "fst (analyzeWorkspace sha256_hex w (session sha256_hex evs)) = Some B" by (rule res)
  qed
  from first second show ?thesis by blast
qed

theorem analysis_ceiling_witness:
  "0 \<le> maxFiles demo_workspace \<and>
   int (length demo_candidates) > maxFiles demo_workspace \<and>
   cacheKey demo_workspace = Some ''file:///demo'' \<and>
   (Map.empty :: cache) ''file:///demo'' = None \<and>
   fst (analyzeWorkspace (\<lambda>s. s) demo_workspace Map.empty) = Some demo_analysis \<and>
   list_all (\<lambda>w'. maxFiles w' = maxFiles demo_workspace)
     (concat (map event_workspaces
       [Analyze demo_workspace, Analyze other_workspace, Rebuild demo_workspace])) \<and>
   fst (analyzeWorkspace (\<lambda>s. s) demo_workspace
     (session (\<lambda>s. s) [Analyze demo_workspace, Analyze other_workspace, Rebuild demo_workspace])) =
     Some demo_analysis \<and>
   int (length (files demo_analysis)) \<le> maxFiles demo_workspace \<and>
   fileCount demo_analysis = length (files demo_analysis)"
proof -
  have h0: "0 \<le> maxFiles demo_workspace" by (simp add: demo_workspace_def)
  have more: "int (length demo_candidates) > maxFiles demo_workspace"
    by (simp add: demo_workspace_def demo_candidates_def)
  have h1: "cacheKey demo_workspace = Some ''file:///demo''" by code_simp
  have h2: "(Map.empty :: cache) ''file:///demo'' = None" by simp
  have h3: "fst (analyzeWorkspace (\<lambda>s. s) demo_workspace Map.empty) = Some demo_analysis"
    by code_simp
  have h4: "\<forall>w' \<in> set (concat (map event_workspaces
       [Analyze demo_workspace, Analyze other_workspace, Rebuild demo_workspace])).
      maxFiles w' = maxFiles demo_workspace"
    by (simp add: demo_workspace_def other_workspace_def)
  note h5 = demo_analysis_value
  from analysis_ceiling [OF h0, of "''file:///demo''" Map.empty "\<lambda>s. s" demo_analysis
      "[Analyze demo_workspace, Analyze other_workspace, Rebuild demo_workspace]" demo_analysis]
    h1 h2 h3 h4 h5
  have "int (length (files demo_analysis)) \<le> maxFiles demo_workspace \<and>
        fileCount demo_analysis = length (files demo_analysis)"
    by blast
  moreover from h4 have "list_all (\<lambda>w'. maxFiles w' = maxFiles demo_workspace)
     (concat (map event_workspaces
       [Analyze demo_workspace, Analyze other_workspace, Rebuild demo_workspace]))"
    by (simp only: list_all_iff)
  ultimately show ?thesis using h0 more h1 h2 h3 h5 by blast
qed

section \<open>Properties of the cache\<close>

text \<open>
  The events \<open>Analyze\<close> and \<open>Rebuild\<close> add nothing to the finer ones: a call that runs to
  its end at once leaves the cache that its begin, directly followed by its end, leaves.
\<close>

lemma analyze_begin_end:
  "analyzeWorkspace_begin sha w c = Finished result \<Longrightarrow>
     step sha (c, running) (AnalyzeBegin w) = step sha (c, running) (Analyze w)"
  "analyzeWorkspace_begin sha w c = Pending k a \<Longrightarrow>
     fst (step sha (step sha (c, running) (AnalyzeBegin w)) (AnalyzeEnd k a)) =
     fst (step sha (c, running) (Analyze w))"
  by (simp_all add: analyzeWorkspace_def analyzeWorkspace_end_def launch_def)

lemma rebuild_begin_end:
  "snd (rebuildAnalysis_begin sha w c) = Finished result \<Longrightarrow>
     step sha (c, running) (RebuildBegin w) = step sha (c, running) (Rebuild w)"
  "snd (rebuildAnalysis_begin sha w c) = Pending k a \<Longrightarrow>
     fst (step sha (step sha (c, running) (RebuildBegin w)) (AnalyzeEnd k a)) =
     fst (step sha (c, running) (Rebuild w))"
  by (simp_all add: rebuildAnalysis_def analyzeWorkspace_end_def launch_def split_beta)

lemma analyze_keeps_entry:
  assumes "c k = Some A"
  shows "snd (analyzeWorkspace sha w c) k = Some A"
  using assms by (cases rule: analyze_cases [of w sha c]) auto

lemma analyze_other_key:
  assumes "cacheKey w \<noteq> Some k"
  shows "snd (analyzeWorkspace sha w c) k = c k"
  using assms by (cases rule: analyze_cases [of w sha c]) (auto simp: cacheKey_def)

lemma rebuild_other_key:
  assumes "cacheKey w \<noteq> Some k"
  shows "rebuildAnalysis sha w c k = c k"
proof (cases "workspaceFolders w")
  case Nil
  then show ?thesis by (simp add: rebuildAnalysis_atomic)
next
  case (Cons folder rest)
  with assms have ne: "uri folder \<noteq> k" by (simp add: cacheKey_def)
  have "rebuildAnalysis sha w c k = snd (analyzeWorkspace sha w (c(uri folder := None))) k"
    using Cons by (simp add: rebuildAnalysis_atomic)
  also have "\<dots> = (c(uri folder := None)) k"
    using assms by (rule analyze_other_key)
  also have "\<dots> = c k" using ne by simp
  finally show ?thesis .
qed

lemma analyze_hit:
  assumes "c k = Some A" and "cacheKey w = Some k"
  shows "analyzeWorkspace sha w c = (Some A, c)"
  using assms by (cases rule: analyze_cases [of w sha c]) (auto simp: cacheKey_def)

lemma analyze_stores:
  assumes "cacheKey w = Some k" and "fst (analyzeWorkspace sha w c) = Some A"
  shows "snd (analyzeWorkspace sha w c) k = Some A"
  using assms by (cases rule: analyze_cases [of w sha c]) (auto simp: cacheKey_def)

lemma analyze_miss:
  assumes "cacheKey w = Some k" and "c k = None"
  shows "snd (analyzeWorkspace sha w c) k = fst (analyzeWorkspace sha w c)"
  using assms by (cases rule: analyze_cases [of w sha c]) (auto simp: cacheKey_def)

lemma analyze_reads_entry:
  assumes "cacheKey w = Some k" and "c k = c2 k"
  shows "fst (analyzeWorkspace sha w c) = fst (analyzeWorkspace sha w c2)"
proof -
  from assms(1) obtain folder rest where f: "workspaceFolders w = folder # rest" "uri folder = k"
    by (auto dest: cacheKey_SomeD)
  show ?thesis
  proof (cases "c k")
    case None
    with assms(2) have "c2 k = None" by simp
    with None f show ?thesis
      by (simp add: analyzeWorkspace_def analyzeWorkspace_begin_def analyzeWorkspace_end_def
          Let_def split: option.split)
  next
    case (Some A)
    with assms(2) have "c2 k = Some A" by simp
    with Some f show ?thesis
      by (simp add: analyzeWorkspace_def analyzeWorkspace_begin_def analyzeWorkspace_end_def
          Let_def)
  qed
qed

lemma rebuild_recomputes:
  assumes "cacheKey w = Some k"
  shows "rebuildAnalysis sha w c k = fst (analyzeWorkspace sha w Map.empty)"
proof -
  from assms obtain folder rest where f: "workspaceFolders w = folder # rest" "uri folder = k"
    by (auto dest: cacheKey_SomeD)
  have "rebuildAnalysis sha w c k = snd (analyzeWorkspace sha w (c(k := None))) k"
    using f by (simp add: rebuildAnalysis_atomic)
  also have "\<dots> = fst (analyzeWorkspace sha w (c(k := None)))"
    using assms by (rule analyze_miss) simp
  also have "\<dots> = fst (analyzeWorkspace sha w Map.empty)"
    using assms by (rule analyze_reads_entry) simp
  finally show ?thesis .
qed

lemma begin_hit:
  assumes "c k = Some A" and "cacheKey w = Some k"
  shows "analyzeWorkspace_begin sha w c = Finished (Some A)"
  using assms by (cases rule: begin_cases [of w sha c]) (auto simp: cacheKey_def)

lemma rebuild_begin_other_key:
  assumes "cacheKey w \<noteq> Some k"
  shows "fst (rebuildAnalysis_begin sha w c) k = c k"
  using assms by (cases rule: rebuild_begin_cases [of w sha c]) (auto simp: cacheKey_def)

lemma rebuild_begin_deletes:
  assumes "cacheKey w = Some k"
  shows "fst (rebuildAnalysis_begin sha w c) k = None"
  using assms by (cases rule: rebuild_begin_cases [of w sha c]) (auto simp: cacheKey_def)

lemma rebuild_begin_absent:
  assumes "c k = None"
  shows "fst (rebuildAnalysis_begin sha w c) k = None"
  using assms by (cases rule: rebuild_begin_cases [of w sha c]) auto

lemma fst_step_RebuildBegin:
  "fst (step sha (c, running) (RebuildBegin w)) = fst (rebuildAnalysis_begin sha w c)"
  by (simp add: split_beta)

lemma snd_step_RebuildBegin:
  "snd (step sha (c, running) (RebuildBegin w)) =
   launch (snd (rebuildAnalysis_begin sha w c)) running"
  by (simp add: split_beta)

lemma launch_quiet:
  assumes "c k = Some A" and "k \<notin> fst ` set running"
  shows "k \<notin> fst ` set (launch (analyzeWorkspace_begin sha w c) running)"
proof (cases "analyzeWorkspace_begin sha w c")
  case (Finished result)
  with assms(2) show ?thesis by (simp add: launch_def)
next
  case (Pending k' a)
  then have "c k' = None" using begin_pending by blast
  with assms(1) have "k' \<noteq> k" by auto
  with Pending assms(2) show ?thesis by (simp add: launch_def)
qed

lemma step_keeps_entry:
  assumes "c k = Some A" and "\<not> invalidates k ev" and "\<not> endsCall k ev"
  shows "fst (step sha (c, running) ev) k = Some A"
proof (cases ev)
  case (Analyze w)
  with assms show ?thesis by (simp add: analyze_keeps_entry)
next
  case (Rebuild w)
  with assms show ?thesis by (simp add: rebuild_other_key)
next
  case (AnalyzeBegin w)
  with assms show ?thesis by simp
next
  case (RebuildBegin w)
  with assms(2) have "cacheKey w \<noteq> Some k" by simp
  then have "fst (rebuildAnalysis_begin sha w c) k = c k" by (rule rebuild_begin_other_key)
  with RebuildBegin assms(1) show ?thesis by (simp only: fst_step_RebuildBegin)
next
  case (AnalyzeEnd k' a)
  with assms show ?thesis by (simp add: analyzeWorkspace_end_def)
qed (use assms in auto)

lemma foldl_step_keeps_entry:
  assumes "fst st k = Some A" and "\<forall>ev\<in>set evs. \<not> invalidates k ev \<and> \<not> endsCall k ev"
  shows "fst (foldl (step sha) st evs) k = Some A"
  using assms
proof (induction evs arbitrary: st)
  case Nil
  then show ?case by simp
next
  case (Cons ev evs)
  obtain c running where st: "st = (c, running)" by (cases st)
  from Cons.prems st have "fst (step sha (c, running) ev) k = Some A"
    by (simp add: step_keeps_entry)
  with Cons.prems st show ?case by (simp add: Cons.IH)
qed

lemma step_quiet:
  assumes "c k = Some A" and "k \<notin> fst ` set running" and "\<not> invalidates k ev"
  shows "fst (step sha (c, running) ev) k = Some A \<and>
         k \<notin> fst ` set (snd (step sha (c, running) ev))"
proof (cases ev)
  case (Analyze w)
  with assms show ?thesis by (simp add: analyze_keeps_entry)
next
  case (Rebuild w)
  with assms show ?thesis by (simp add: rebuild_other_key)
next
  case FoldersChanged
  with assms(3) show ?thesis by simp
next
  case Deactivate
  with assms(3) show ?thesis by simp
next
  case (AnalyzeBegin w)
  with assms(1) launch_quiet [of c k A running sha w, OF assms(1,2)] show ?thesis by simp
next
  case (RebuildBegin w)
  with assms(3) have other: "cacheKey w \<noteq> Some k" by simp
  show ?thesis
  proof (cases rule: rebuild_begin_cases [of w sha c])
    case nofolder
    with RebuildBegin assms(1,2) show ?thesis by (simp add: launch_def)
  next
    case (folder folder rest)
    with other have ne: "uri folder \<noteq> k" by (simp add: cacheKey_def)
    with assms(1) have kept: "(c(uri folder := None)) k = Some A" by simp
    from launch_quiet [of "c(uri folder := None)" k A running sha w, OF kept assms(2)]
      kept folder RebuildBegin
    show ?thesis by simp
  qed
next
  case (AnalyzeEnd k' a)
  show ?thesis
  proof (cases "(k', a) \<in> set running")
    case True
    with assms(2) have ne: "k' \<noteq> k" by force
    have "set (remove1 (k', a) running) \<subseteq> set running" by (rule set_remove1_subset)
    with assms(2) have "k \<notin> fst ` set (remove1 (k', a) running)" by blast
    with True ne AnalyzeEnd assms(1) show ?thesis by (simp add: analyzeWorkspace_end_def)
  next
    case False
    with AnalyzeEnd assms(1,2) show ?thesis by simp
  qed
qed

lemma foldl_step_quiet:
  assumes "fst st k = Some A" and "k \<notin> fst ` set (snd st)"
    and "\<forall>ev\<in>set evs. \<not> invalidates k ev"
  shows "fst (foldl (step sha) st evs) k = Some A"
  using assms
proof (induction evs arbitrary: st)
  case Nil
  then show ?case by simp
next
  case (Cons ev evs)
  obtain c running where st: "st = (c, running)" by (cases st)
  from Cons.prems st have
    "fst (step sha (c, running) ev) k = Some A \<and>
     k \<notin> fst ` set (snd (step sha (c, running) ev))"
    by (intro step_quiet) auto
  with Cons.prems st show ?case by (simp add: Cons.IH)
qed

lemma step_keeps_absent:
  assumes "c k = None" and "\<not> stores k ev"
  shows "fst (step sha (c, running) ev) k = None"
proof (cases ev)
  case (Analyze w)
  with assms show ?thesis by (simp add: analyze_other_key)
next
  case (Rebuild w)
  with assms show ?thesis by (simp add: rebuild_other_key)
next
  case FoldersChanged
  then show ?thesis by (simp add: onDidChangeWorkspaceFolders_def)
next
  case Deactivate
  then show ?thesis by (simp add: deactivate_def)
next
  case (AnalyzeBegin w)
  with assms show ?thesis by simp
next
  case (RebuildBegin w)
  with rebuild_begin_absent [of c k sha w, OF assms(1)] show ?thesis
    by (simp only: fst_step_RebuildBegin)
next
  case (AnalyzeEnd k' a)
  with assms show ?thesis by (simp add: analyzeWorkspace_end_def)
qed

lemma foldl_step_keeps_absent:
  assumes "fst st k = None" and "\<forall>ev\<in>set evs. \<not> stores k ev"
  shows "fst (foldl (step sha) st evs) k = None"
  using assms
proof (induction evs arbitrary: st)
  case Nil
  then show ?case by simp
next
  case (Cons ev evs)
  obtain c running where st: "st = (c, running)" by (cases st)
  from Cons.prems st have "fst (step sha (c, running) ev) k = None"
    by (simp add: step_keeps_absent)
  with Cons.prems st show ?case by (simp add: Cons.IH)
qed

lemma step_removes:
  assumes "invalidates k ev" and "\<not> stores k ev"
  shows "fst (step sha (c, running) ev) k = None"
proof (cases ev)
  case FoldersChanged
  then show ?thesis by (simp add: onDidChangeWorkspaceFolders_def)
next
  case Deactivate
  then show ?thesis by (simp add: deactivate_def)
next
  case (RebuildBegin w)
  with assms(1) have "cacheKey w = Some k" by simp
  then have "fst (rebuildAnalysis_begin sha w c) k = None" by (rule rebuild_begin_deletes)
  with RebuildBegin show ?thesis by (simp only: fst_step_RebuildBegin)
qed (use assms in auto)

text \<open>
  Claim C4, as amended. For a key \<open>k\<close> and an analysis \<open>A\<close>.

  \<^item> Store: the analysis a call stores, at the end of a call in flight or in a call as a
    whole, is then the entry of the key.
  \<^item> Persistence: an entry \<open>A\<close> under \<open>k\<close> is still there after any events none of which
    removes it (a rebuild for \<open>k\<close>, a change of the workspace folders, a deactivation) or is
    the end of a call in flight for \<open>k\<close>; and when no call for \<open>k\<close> is in flight while the
    entry is there, after any events none of which removes it.
  \<^item> Lookup: while the entry is there, a call of \<open>analyzeWorkspace\<close> for \<open>k\<close> returns exactly
    \<open>A\<close>, whatever the files are, leaves the cache as it was and puts nothing in flight.
  \<^item> Absence: after the delete of a rebuild and after the two clears the key has no entry,
    and a key without an entry has none after any events none of which stores under it.
  \<^item> A rebuild that runs to its end makes the entry what an analysis from an empty
    cache returns.
\<close>

theorem cache_entry_until_removed_or_overwritten:
  "((k, A) \<in> set running \<longrightarrow> fst (step sha256_hex (c, running) (AnalyzeEnd k A)) k = Some A) \<and>
   (cacheKey w = Some k \<and> fst (analyzeWorkspace sha256_hex w c) = Some A \<longrightarrow>
      snd (analyzeWorkspace sha256_hex w c) k = Some A) \<and>
   (c k = Some A \<and> (\<forall>ev\<in>set evs. \<not> invalidates k ev \<and> \<not> endsCall k ev) \<longrightarrow>
      fst (foldl (step sha256_hex) (c, running) evs) k = Some A) \<and>
   (c k = Some A \<and> k \<notin> fst ` set running \<and> (\<forall>ev\<in>set evs. \<not> invalidates k ev) \<longrightarrow>
      fst (foldl (step sha256_hex) (c, running) evs) k = Some A) \<and>
   (c k = Some A \<and> cacheKey w = Some k \<longrightarrow>
      analyzeWorkspace sha256_hex w c = (Some A, c) \<and>
      step sha256_hex (c, running) (AnalyzeBegin w) = (c, running)) \<and>
   (invalidates k ev \<and> \<not> stores k ev \<longrightarrow> fst (step sha256_hex (c, running) ev) k = None) \<and>
   (c k = None \<and> (\<forall>ev\<in>set evs. \<not> stores k ev) \<longrightarrow>
      fst (foldl (step sha256_hex) (c, running) evs) k = None) \<and>
   (cacheKey w = Some k \<longrightarrow>
      rebuildAnalysis sha256_hex w c k = fst (analyzeWorkspace sha256_hex w Map.empty))"
proof (intro conjI impI)
  assume "(k, A) \<in> set running"
  then show "fst (step sha256_hex (c, running) (AnalyzeEnd k A)) k = Some A"
    by (simp add: analyzeWorkspace_end_def)
next
  assume "cacheKey w = Some k \<and> fst (analyzeWorkspace sha256_hex w c) = Some A"
  then show "snd (analyzeWorkspace sha256_hex w c) k = Some A"
    using analyze_stores by blast
next
  assume "c k = Some A \<and> (\<forall>ev\<in>set evs. \<not> invalidates k ev \<and> \<not> endsCall k ev)"
  then show "fst (foldl (step sha256_hex) (c, running) evs) k = Some A"
    using foldl_step_keeps_entry [of "(c, running)" k A evs sha256_hex] by simp
next
  assume "c k = Some A \<and> k \<notin> fst ` set running \<and> (\<forall>ev\<in>set evs. \<not> invalidates k ev)"
  then show "fst (foldl (step sha256_hex) (c, running) evs) k = Some A"
    using foldl_step_quiet [of "(c, running)" k A evs sha256_hex] by simp
next
  assume hit: "c k = Some A \<and> cacheKey w = Some k"
  then show "analyzeWorkspace sha256_hex w c = (Some A, c)"
    using analyze_hit by blast
  from hit have "analyzeWorkspace_begin sha256_hex w c = Finished (Some A)"
    using begin_hit by blast
  then show "step sha256_hex (c, running) (AnalyzeBegin w) = (c, running)"
    by (simp add: launch_def)
next
  assume "invalidates k ev \<and> \<not> stores k ev"
  then show "fst (step sha256_hex (c, running) ev) k = None"
    using step_removes by blast
next
  assume "c k = None \<and> (\<forall>ev\<in>set evs. \<not> stores k ev)"
  then show "fst (foldl (step sha256_hex) (c, running) evs) k = None"
    using foldl_step_keeps_absent [of "(c, running)" k evs sha256_hex] by simp
next
  assume "cacheKey w = Some k"
  then show "rebuildAnalysis sha256_hex w c k = fst (analyzeWorkspace sha256_hex w Map.empty)"
    by (rule rebuild_recomputes)
qed

theorem cache_entry_until_removed_or_overwritten_witness:
  "(''file:///demo'', demo_analysis) \<in> set [(''file:///demo'', demo_analysis)] \<and>
   fst (step (\<lambda>s. s) (stale_cache, [(''file:///demo'', demo_analysis)])
          (AnalyzeEnd ''file:///demo'' demo_analysis)) ''file:///demo'' = Some demo_analysis \<and>
   cacheKey demo_workspace = Some ''file:///demo'' \<and>
   stale_cache ''file:///demo'' = Some stale_analysis \<and>
   fst (analyzeWorkspace (\<lambda>s. s) demo_workspace stale_cache) = Some stale_analysis \<and>
   snd (analyzeWorkspace (\<lambda>s. s) demo_workspace stale_cache) ''file:///demo'' =
     Some stale_analysis \<and>
   list_all (\<lambda>ev. \<not> invalidates ''file:///demo'' ev \<and> \<not> endsCall ''file:///demo'' ev)
     [AnalyzeBegin demo_workspace, Analyze other_workspace, RebuildBegin other_workspace,
      AnalyzeEnd ''file:///other'' demo_analysis] \<and>
   fst (foldl (step (\<lambda>s. s)) (stale_cache, [(''file:///demo'', demo_analysis)])
     [AnalyzeBegin demo_workspace, Analyze other_workspace, RebuildBegin other_workspace,
      AnalyzeEnd ''file:///other'' demo_analysis]) ''file:///demo'' = Some stale_analysis \<and>
   ''file:///demo'' \<notin> fst ` set ([] :: in_flight) \<and>
   list_all (\<lambda>ev. \<not> invalidates ''file:///demo'' ev)
     [AnalyzeBegin demo_workspace, AnalyzeEnd ''file:///demo'' demo_analysis,
      Rebuild other_workspace] \<and>
   fst (foldl (step (\<lambda>s. s)) (stale_cache, [])
     [AnalyzeBegin demo_workspace, AnalyzeEnd ''file:///demo'' demo_analysis,
      Rebuild other_workspace]) ''file:///demo'' = Some stale_analysis \<and>
   analyzeWorkspace (\<lambda>s. s) demo_workspace stale_cache = (Some stale_analysis, stale_cache) \<and>
   step (\<lambda>s. s) (stale_cache, []) (AnalyzeBegin demo_workspace) = (stale_cache, []) \<and>
   invalidates ''file:///demo'' (RebuildBegin demo_workspace) \<and>
   \<not> stores ''file:///demo'' (RebuildBegin demo_workspace) \<and>
   fst (step (\<lambda>s. s) (stale_cache, []) (RebuildBegin demo_workspace)) ''file:///demo'' = None \<and>
   fst (step (\<lambda>s. s) (stale_cache, []) FoldersChanged) ''file:///demo'' = None \<and>
   (Map.empty :: cache) ''file:///demo'' = None \<and>
   list_all (\<lambda>ev. \<not> stores ''file:///demo'' ev)
     [AnalyzeBegin demo_workspace, Analyze other_workspace, Deactivate] \<and>
   fst (foldl (step (\<lambda>s. s)) (Map.empty, [])
     [AnalyzeBegin demo_workspace, Analyze other_workspace, Deactivate]) ''file:///demo'' = None \<and>
   rebuildAnalysis (\<lambda>s. s) demo_workspace stale_cache ''file:///demo'' = Some demo_analysis"
proof -
  let ?k = "''file:///demo''"
  let ?flying = "[(?k, demo_analysis)] :: in_flight"
  let ?evs1 = "[AnalyzeBegin demo_workspace, Analyze other_workspace,
    RebuildBegin other_workspace, AnalyzeEnd ''file:///other'' demo_analysis]"
  let ?evs2 = "[AnalyzeBegin demo_workspace, AnalyzeEnd ?k demo_analysis,
    Rebuild other_workspace]"
  let ?evs3 = "[AnalyzeBegin demo_workspace, Analyze other_workspace, Deactivate]"
  have key: "cacheKey demo_workspace = Some ?k" by code_simp
  have other: "cacheKey other_workspace = Some ''file:///other''"
    by (simp add: cacheKey_def other_workspace_def)
  have entry: "stale_cache ?k = Some stale_analysis" by (simp add: stale_cache_def)
  have flying: "(?k, demo_analysis) \<in> set ?flying" by simp
  have quiet: "?k \<notin> fst ` set ([] :: in_flight)" by simp
  have absent: "(Map.empty :: cache) ?k = None" by simp
  have h1: "\<forall>ev\<in>set ?evs1. \<not> invalidates ?k ev \<and> \<not> endsCall ?k ev"
    by (simp add: other)
  have h2: "\<forall>ev\<in>set ?evs2. \<not> invalidates ?k ev"
    by (simp add: other)
  have h3: "\<forall>ev\<in>set ?evs3. \<not> stores ?k ev"
    by (simp add: other)
  have i1: "invalidates ?k (RebuildBegin demo_workspace)" by (simp add: key)
  have i2: "\<not> stores ?k (RebuildBegin demo_workspace)" by simp
  have i3: "invalidates ?k FoldersChanged \<and> \<not> stores ?k FoldersChanged" by simp
  have fresh: "fst (analyzeWorkspace (\<lambda>s. s) demo_workspace Map.empty) = Some demo_analysis"
    by code_simp
  note t = cache_entry_until_removed_or_overwritten
  from t [of ?k demo_analysis ?flying "\<lambda>s. s" stale_cache] flying
  have stored: "fst (step (\<lambda>s. s) (stale_cache, ?flying) (AnalyzeEnd ?k demo_analysis)) ?k =
      Some demo_analysis"
    by blast
  from t [of ?k stale_analysis "[]" "\<lambda>s. s" stale_cache demo_workspace] key entry
  have hit: "analyzeWorkspace (\<lambda>s. s) demo_workspace stale_cache = (Some stale_analysis, stale_cache)"
    and idle: "step (\<lambda>s. s) (stale_cache, []) (AnalyzeBegin demo_workspace) = (stale_cache, [])"
    by blast+
  from hit have res: "fst (analyzeWorkspace (\<lambda>s. s) demo_workspace stale_cache) = Some stale_analysis"
    by simp
  from t [of ?k stale_analysis "[]" "\<lambda>s. s" stale_cache demo_workspace] key res
  have put: "snd (analyzeWorkspace (\<lambda>s. s) demo_workspace stale_cache) ?k = Some stale_analysis"
    by blast
  from t [of ?k stale_analysis ?flying "\<lambda>s. s" stale_cache demo_workspace ?evs1] entry h1
  have kept1: "fst (foldl (step (\<lambda>s. s)) (stale_cache, ?flying) ?evs1) ?k = Some stale_analysis"
    by blast
  from t [of ?k stale_analysis "[]" "\<lambda>s. s" stale_cache demo_workspace ?evs2] entry quiet h2
  have kept2: "fst (foldl (step (\<lambda>s. s)) (stale_cache, []) ?evs2) ?k = Some stale_analysis"
    by blast
  from t [of ?k stale_analysis "[]" "\<lambda>s. s" stale_cache demo_workspace "[]"
      "RebuildBegin demo_workspace"] i1 i2
  have gone1: "fst (step (\<lambda>s. s) (stale_cache, []) (RebuildBegin demo_workspace)) ?k = None"
    by blast
  from t [of ?k stale_analysis "[]" "\<lambda>s. s" stale_cache demo_workspace "[]" FoldersChanged] i3
  have gone2: "fst (step (\<lambda>s. s) (stale_cache, []) FoldersChanged) ?k = None"
    by blast
  from t [of ?k stale_analysis "[]" "\<lambda>s. s" Map.empty demo_workspace ?evs3] absent h3
  have none: "fst (foldl (step (\<lambda>s. s)) (Map.empty, []) ?evs3) ?k = None"
    by blast
  from t [of ?k stale_analysis "[]" "\<lambda>s. s" stale_cache demo_workspace] key
  have "rebuildAnalysis (\<lambda>s. s) demo_workspace stale_cache ?k =
      fst (analyzeWorkspace (\<lambda>s. s) demo_workspace Map.empty)"
    by blast
  from this fresh have rebuilt:
    "rebuildAnalysis (\<lambda>s. s) demo_workspace stale_cache ?k = Some demo_analysis"
    by (rule trans)
  from h1 have h1': "list_all (\<lambda>ev. \<not> invalidates ?k ev \<and> \<not> endsCall ?k ev) ?evs1"
    by (simp only: list_all_iff)
  from h2 have h2': "list_all (\<lambda>ev. \<not> invalidates ?k ev) ?evs2"
    by (simp only: list_all_iff)
  from h3 have h3': "list_all (\<lambda>ev. \<not> stores ?k ev) ?evs3"
    by (simp only: list_all_iff)
  from flying stored key entry res put h1' kept1 quiet h2' kept2 hit idle i1 i2 gone1 gone2
    absent h3' none rebuilt
  show ?thesis by blast
qed

text \<open>
  The claim as stated lets only an invalidation end the life of an entry. But the calls
  of \<open>analyzeWorkspace\<close> are not serialised. A call begins while the cache is empty and
  reads the folder with its files. Before it ends, the files are removed and a rebuild
  begins. The rebuild ends first: its analysis, of the folder without files, is stored
  and a lookup returns it. Then the first call ends, which is no invalidation, and the
  lookup returns the other, older analysis. In the same way the end of a call in flight
  stores an entry after the map has been cleared.
\<close>

theorem late_store_overwrites:
  "session (\<lambda>s. s)
     [AnalyzeBegin demo_workspace, RebuildBegin empty_demo_workspace,
      AnalyzeEnd ''file:///demo'' stale_analysis] ''file:///demo'' = Some stale_analysis \<and>
   fst (analyzeWorkspace (\<lambda>s. s) demo_workspace
     (session (\<lambda>s. s)
       [AnalyzeBegin demo_workspace, RebuildBegin empty_demo_workspace,
        AnalyzeEnd ''file:///demo'' stale_analysis])) = Some stale_analysis \<and>
   \<not> invalidates ''file:///demo'' (AnalyzeEnd ''file:///demo'' demo_analysis) \<and>
   session (\<lambda>s. s)
     [AnalyzeBegin demo_workspace, RebuildBegin empty_demo_workspace,
      AnalyzeEnd ''file:///demo'' stale_analysis,
      AnalyzeEnd ''file:///demo'' demo_analysis] ''file:///demo'' = Some demo_analysis \<and>
   fst (analyzeWorkspace (\<lambda>s. s) demo_workspace
     (session (\<lambda>s. s)
       [AnalyzeBegin demo_workspace, RebuildBegin empty_demo_workspace,
        AnalyzeEnd ''file:///demo'' stale_analysis,
        AnalyzeEnd ''file:///demo'' demo_analysis])) = Some demo_analysis \<and>
   demo_analysis \<noteq> stale_analysis \<and>
   session (\<lambda>s. s) [AnalyzeBegin demo_workspace, FoldersChanged] ''file:///demo'' = None \<and>
   session (\<lambda>s. s)
     [AnalyzeBegin demo_workspace, FoldersChanged,
      AnalyzeEnd ''file:///demo'' demo_analysis] ''file:///demo'' = Some demo_analysis"
proof -
  have a: "session (\<lambda>s. s)
     [AnalyzeBegin demo_workspace, RebuildBegin empty_demo_workspace,
      AnalyzeEnd ''file:///demo'' stale_analysis] ''file:///demo'' = Some stale_analysis"
    by code_simp
  have b: "fst (analyzeWorkspace (\<lambda>s. s) demo_workspace
     (session (\<lambda>s. s)
       [AnalyzeBegin demo_workspace, RebuildBegin empty_demo_workspace,
        AnalyzeEnd ''file:///demo'' stale_analysis])) = Some stale_analysis"
    by code_simp
  have c: "\<not> invalidates ''file:///demo'' (AnalyzeEnd ''file:///demo'' demo_analysis)"
    by simp
  have d: "session (\<lambda>s. s)
     [AnalyzeBegin demo_workspace, RebuildBegin empty_demo_workspace,
      AnalyzeEnd ''file:///demo'' stale_analysis,
      AnalyzeEnd ''file:///demo'' demo_analysis] ''file:///demo'' = Some demo_analysis"
    by code_simp
  have e: "fst (analyzeWorkspace (\<lambda>s. s) demo_workspace
     (session (\<lambda>s. s)
       [AnalyzeBegin demo_workspace, RebuildBegin empty_demo_workspace,
        AnalyzeEnd ''file:///demo'' stale_analysis,
        AnalyzeEnd ''file:///demo'' demo_analysis])) = Some demo_analysis"
    by code_simp
  have f: "demo_analysis \<noteq> stale_analysis"
    by (simp add: stale_analysis_def demo_analysis_def)
  have g: "session (\<lambda>s. s) [AnalyzeBegin demo_workspace, FoldersChanged] ''file:///demo'' = None"
    by code_simp
  have h: "session (\<lambda>s. s)
     [AnalyzeBegin demo_workspace, FoldersChanged,
      AnalyzeEnd ''file:///demo'' demo_analysis] ''file:///demo'' = Some demo_analysis"
    by code_simp
  from a b c d e f g h show ?thesis by blast
qed

text \<open>
  Claim C10. \<open>analyzeWorkspace\<close> and \<open>rebuildAnalysis\<close> change nothing without a workspace
  folder, leave the entry of every key other than the URI of the first folder as it was,
  and \<open>analyzeWorkspace\<close> reads no other entry: its result is the same on two caches that
  agree on that key. The handler of folder changes and \<open>deactivate\<close> empty the map.
\<close>

theorem cache_frame:
  "(cacheKey w = None \<longrightarrow>
      analyzeWorkspace sha256_hex w c = (None, c) \<and> rebuildAnalysis sha256_hex w c = c) \<and>
   (cacheKey w \<noteq> Some k \<longrightarrow>
      snd (analyzeWorkspace sha256_hex w c) k = c k \<and> rebuildAnalysis sha256_hex w c k = c k) \<and>
   (cacheKey w = Some k \<and> c k = c2 k \<longrightarrow>
      fst (analyzeWorkspace sha256_hex w c) = fst (analyzeWorkspace sha256_hex w c2)) \<and>
   onDidChangeWorkspaceFolders c = Map.empty \<and> deactivate c = Map.empty"
proof (intro conjI impI)
  assume "cacheKey w = None"
  then have none: "workspaceFolders w = []" by (simp add: cacheKey_None)
  then show "analyzeWorkspace sha256_hex w c = (None, c)"
    by (simp add: analyzeWorkspace_def analyzeWorkspace_begin_def analyzeWorkspace_end_def)
  from none show "rebuildAnalysis sha256_hex w c = c"
    by (simp add: rebuildAnalysis_atomic)
next
  assume other: "cacheKey w \<noteq> Some k"
  then show "snd (analyzeWorkspace sha256_hex w c) k = c k"
    by (rule analyze_other_key)
  from other show "rebuildAnalysis sha256_hex w c k = c k"
    by (rule rebuild_other_key)
next
  assume "cacheKey w = Some k \<and> c k = c2 k"
  then show "fst (analyzeWorkspace sha256_hex w c) = fst (analyzeWorkspace sha256_hex w c2)"
    using analyze_reads_entry by blast
next
  show "onDidChangeWorkspaceFolders c = Map.empty"
    by (simp add: onDidChangeWorkspaceFolders_def)
  show "deactivate c = Map.empty"
    by (simp add: deactivate_def)
qed

theorem cache_frame_witness:
  "cacheKey (demo_workspace\<lparr>workspaceFolders := []\<rparr>) = None \<and>
   analyzeWorkspace (\<lambda>s. s) (demo_workspace\<lparr>workspaceFolders := []\<rparr>) stale_cache =
     (None, stale_cache) \<and>
   rebuildAnalysis (\<lambda>s. s) (demo_workspace\<lparr>workspaceFolders := []\<rparr>) stale_cache = stale_cache \<and>
   cacheKey other_workspace \<noteq> Some ''file:///demo'' \<and>
   snd (analyzeWorkspace (\<lambda>s. s) other_workspace stale_cache) ''file:///demo'' =
     Some stale_analysis \<and>
   rebuildAnalysis (\<lambda>s. s) other_workspace stale_cache ''file:///demo'' = Some stale_analysis \<and>
   cacheKey demo_workspace = Some ''file:///demo'' \<and>
   stale_cache ''file:///demo'' = (stale_cache(''file:///other'' \<mapsto> demo_analysis)) ''file:///demo'' \<and>
   fst (analyzeWorkspace (\<lambda>s. s) demo_workspace stale_cache) =
     fst (analyzeWorkspace (\<lambda>s. s) demo_workspace
       (stale_cache(''file:///other'' \<mapsto> demo_analysis)))"
proof -
  let ?w0 = "demo_workspace\<lparr>workspaceFolders := []\<rparr>"
  let ?c2 = "stale_cache(''file:///other'' \<mapsto> demo_analysis)"
  have h1: "cacheKey ?w0 = None" by (simp add: cacheKey_def)
  have h2: "cacheKey other_workspace \<noteq> Some ''file:///demo''"
    by (simp add: cacheKey_def other_workspace_def)
  have h3: "cacheKey demo_workspace = Some ''file:///demo''" by code_simp
  have h4: "stale_cache ''file:///demo'' = ?c2 ''file:///demo''" by simp
  have v: "stale_cache ''file:///demo'' = Some stale_analysis" by (simp add: stale_cache_def)
  from cache_frame [of ?w0 "\<lambda>s. s" stale_cache] h1
  have a: "analyzeWorkspace (\<lambda>s. s) ?w0 stale_cache = (None, stale_cache) \<and>
           rebuildAnalysis (\<lambda>s. s) ?w0 stale_cache = stale_cache"
    by blast
  from cache_frame [of other_workspace "\<lambda>s. s" stale_cache "''file:///demo''"] h2
  have "snd (analyzeWorkspace (\<lambda>s. s) other_workspace stale_cache) ''file:///demo'' =
          stale_cache ''file:///demo'' \<and>
        rebuildAnalysis (\<lambda>s. s) other_workspace stale_cache ''file:///demo'' =
          stale_cache ''file:///demo''"
    by blast
  then have b: "snd (analyzeWorkspace (\<lambda>s. s) other_workspace stale_cache) ''file:///demo'' =
             Some stale_analysis \<and>
           rebuildAnalysis (\<lambda>s. s) other_workspace stale_cache ''file:///demo'' = Some stale_analysis"
    unfolding v .
  from cache_frame [of demo_workspace "\<lambda>s. s" stale_cache "''file:///demo''" ?c2] h3 h4
  have c: "fst (analyzeWorkspace (\<lambda>s. s) demo_workspace stale_cache) =
           fst (analyzeWorkspace (\<lambda>s. s) demo_workspace ?c2)"
    by blast
  from h1 h2 h3 h4 a b c show ?thesis by blast
qed

section \<open>Properties of the renderer\<close>

lemma renderLoop_concat:
  "renderLoop ops al markdown = markdown @ concat (map (renderAnswer ops) al)"
  by (induction al arbitrary: markdown) simp_all

lemma renderResponse_concat:
  "al \<noteq> [] \<Longrightarrow> renderResponse ops \<lparr>answers = al\<rparr> = concat (map (renderAnswer ops) al)"
  by (simp add: renderResponse_def renderLoop_concat)

lemma concat_blocks_split:
  assumes "i < length al"
  shows "concat (map f al) =
         concat (map f (take i al)) @ f (al ! i) @ concat (map f (drop (Suc i) al))"
proof -
  from assms have "al = take i al @ al ! i # drop (Suc i) al"
    by (rule id_take_nth_drop)
  then have "concat (map f al) = concat (map f (take i al @ al ! i # drop (Suc i) al))"
    by simp
  then show ?thesis by simp
qed

lemma block_at_offset:
  assumes "i < length al"
  shows "take (length (renderAnswer ops (al ! i)))
           (drop (blockOffset ops al i) (renderResponse ops \<lparr>answers = al\<rparr>)) =
         renderAnswer ops (al ! i)"
proof -
  from assms have "al \<noteq> []" by auto
  then have "renderResponse ops \<lparr>answers = al\<rparr> = concat (map (renderAnswer ops) al)"
    by (rule renderResponse_concat)
  also have "\<dots> = concat (map (renderAnswer ops) (take i al)) @ renderAnswer ops (al ! i) @
      concat (map (renderAnswer ops) (drop (Suc i) al))"
    using assms by (rule concat_blocks_split)
  finally show ?thesis by (simp add: blockOffset_def)
qed

lemma renderAnswer_nonempty: "0 < length (renderAnswer ops a)"
  by (simp add: renderAnswer_def answerText_def)

lemma blockOffset_Suc:
  assumes "i < length al"
  shows "blockOffset ops al (Suc i) = blockOffset ops al i + length (renderAnswer ops (al ! i))"
  using assms by (simp add: blockOffset_def take_Suc_conv_app_nth)

lemma blockOffset_increases:
  assumes "i < length al"
  shows "blockOffset ops al i < blockOffset ops al (Suc i)"
  using blockOffset_Suc [OF assms, of ops] renderAnswer_nonempty [of ops "al ! i"] by linarith

lemma answerText_reference:
  "prefix (fileReference f) (answerText f s e sc l c ex)"
  by (simp add: answerText_def)

lemma answerText_lines:
  "sublist (''(lines '' @ s @ ''-'' @ e @ '')'') (answerText f s e sc l c ex)"
  unfolding sublist_def
  by (rule exI [of _ "fileReference f @ '' ''"],
      rule exI [of _ "'' [score: '' @ sc @ '']'' @ newline @ newline @ fence @ l @ newline @ c @
        newline @ fence @ newline @ newline @ ex @ ''---'' @ newline @ newline"])
     (simp add: answerText_def)

lemma answerText_score:
  "sublist (''[score: '' @ sc @ '']'') (answerText f s e sc l c ex)"
  unfolding sublist_def
  by (rule exI [of _ "fileReference f @ '' (lines '' @ s @ ''-'' @ e @ '') ''"],
      rule exI [of _ "newline @ newline @ fence @ l @ newline @ c @
        newline @ fence @ newline @ newline @ ex @ ''---'' @ newline @ newline"])
     (simp add: answerText_def)

lemma answerText_code:
  "sublist (fence @ l @ newline @ c @ newline @ fence) (answerText f s e sc l c ex)"
  unfolding sublist_def
  by (rule exI [of _ "fileReference f @ '' (lines '' @ s @ ''-'' @ e @ '') [score: '' @ sc @
        '']'' @ newline @ newline"],
      rule exI [of _ "newline @ newline @ ex @ ''---'' @ newline @ newline"])
     (simp add: answerText_def)

lemma answerText_explanation:
  "sublist ex (answerText f s e sc l c ex)"
  unfolding sublist_def
  by (rule exI [of _ "fileReference f @ '' (lines '' @ s @ ''-'' @ e @ '') [score: '' @ sc @
        '']'' @ newline @ newline @ fence @ l @ newline @ c @ newline @ fence @ newline @
        newline"],
      rule exI [of _ "''---'' @ newline @ newline"])
     (simp add: answerText_def)

lemma renderAnswer_contents:
  "prefix (fileReference (file a)) (renderAnswer ops a)"
  "sublist (''(lines '' @ num_toString ops (start_line a) @ ''-'' @
      num_toString ops (end_line a) @ '')'') (renderAnswer ops a)"
  "sublist (''[score: '' @ num_toFixed2 ops (score a) @ '']'') (renderAnswer ops a)"
  "sublist (fence @ languageTag (file a) @ newline @ code a @ newline @ fence)
     (renderAnswer ops a)"
  "sublist (explanation a) (renderAnswer ops a)"
proof -
  show "prefix (fileReference (file a)) (renderAnswer ops a)"
    unfolding renderAnswer_def by (rule answerText_reference)
  show "sublist (''(lines '' @ num_toString ops (start_line a) @ ''-'' @
      num_toString ops (end_line a) @ '')'') (renderAnswer ops a)"
    unfolding renderAnswer_def by (rule answerText_lines)
  show "sublist (''[score: '' @ num_toFixed2 ops (score a) @ '']'') (renderAnswer ops a)"
    unfolding renderAnswer_def by (rule answerText_score)
  show "sublist (fence @ languageTag (file a) @ newline @ code a @ newline @ fence)
     (renderAnswer ops a)"
    unfolding renderAnswer_def by (rule answerText_code)
  have "sublist (explanation a)
     (if explanation a \<noteq> [] then explanation a @ newline @ newline else [])"
    by simp
  also have "sublist \<dots> (renderAnswer ops a)"
    unfolding renderAnswer_def by (rule answerText_explanation)
  finally show "sublist (explanation a) (renderAnswer ops a)" .
qed

text \<open>
  Claim C8. The rendered text of a non-empty answer list is the blocks of the answers one
  after the other, in the order of the list, one block for each element: nothing is
  sorted, dropped or merged. The block of the \<open>i\<close>-th answer stands in the text at
  \<open>blockOffset ops al i\<close>; it begins with the file reference and contains the line range, the score (as
  \<open>toFixed(2)\<close> prints it), the fenced code and the explanation; and the offsets increase
  strictly, so that the reference of each answer comes before that of the next.
\<close>

theorem render_order_preserving:
  "(renderResponse ops \<lparr>answers = al\<rparr> =
      (if al = [] then ''No results found.'' else concat (map (renderAnswer ops) al))) \<and>
   (\<forall>i<length al.
      take (length (renderAnswer ops (al ! i)))
        (drop (blockOffset ops al i) (renderResponse ops \<lparr>answers = al\<rparr>)) =
        renderAnswer ops (al ! i) \<and>
      sublist (renderAnswer ops (al ! i)) (renderResponse ops \<lparr>answers = al\<rparr>) \<and>
      prefix (fileReference (file (al ! i))) (renderAnswer ops (al ! i)) \<and>
      sublist (''(lines '' @ num_toString ops (start_line (al ! i)) @ ''-'' @
         num_toString ops (end_line (al ! i)) @ '')'') (renderAnswer ops (al ! i)) \<and>
      sublist (''[score: '' @ num_toFixed2 ops (score (al ! i)) @ '']'')
        (renderAnswer ops (al ! i)) \<and>
      sublist (fence @ languageTag (file (al ! i)) @ newline @ code (al ! i) @ newline @ fence)
        (renderAnswer ops (al ! i)) \<and>
      sublist (explanation (al ! i)) (renderAnswer ops (al ! i))) \<and>
   (\<forall>i. Suc i < length al \<longrightarrow> blockOffset ops al i < blockOffset ops al (Suc i))"
proof (intro conjI allI impI)
  show "renderResponse ops \<lparr>answers = al\<rparr> =
      (if al = [] then ''No results found.'' else concat (map (renderAnswer ops) al))"
    by (simp add: renderResponse_def renderLoop_concat)
next
  fix i assume "i < length al"
  then show "take (length (renderAnswer ops (al ! i)))
        (drop (blockOffset ops al i) (renderResponse ops \<lparr>answers = al\<rparr>)) =
        renderAnswer ops (al ! i)"
    by (rule block_at_offset)
next
  fix i assume "i < length al"
  then have "take (length (renderAnswer ops (al ! i)))
        (drop (blockOffset ops al i) (renderResponse ops \<lparr>answers = al\<rparr>)) =
        renderAnswer ops (al ! i)"
    by (rule block_at_offset)
  then have "sublist (renderAnswer ops (al ! i))
      (drop (blockOffset ops al i) (renderResponse ops \<lparr>answers = al\<rparr>))"
    by (metis sublist_take)
  also have "sublist \<dots> (renderResponse ops \<lparr>answers = al\<rparr>)"
    by (rule sublist_drop)
  finally show "sublist (renderAnswer ops (al ! i)) (renderResponse ops \<lparr>answers = al\<rparr>)" .
next
  fix i assume "Suc i < length al"
  then have "i < length al" by simp
  then show "blockOffset ops al i < blockOffset ops al (Suc i)"
    by (rule blockOffset_increases)
qed (rule renderAnswer_contents)+

theorem render_order_preserving_witness:
  "renderResponse int_ops \<lparr>answers = [answer1, answer2, answer3]\<rparr> =
     renderAnswer int_ops answer1 @ renderAnswer int_ops answer2 @ renderAnswer int_ops answer3 \<and>
   renderAnswer int_ops answer2 =
     ''**a.py** (lines 1-1) [score: 1.00]'' @ newline @ newline @
     fence @ ''python'' @ newline @ ''pass'' @ newline @ fence @ newline @ newline @
     ''---'' @ newline @ newline \<and>
   blockOffset int_ops [answer1, answer2, answer3] 0 = 0 \<and>
   blockOffset int_ops [answer1, answer2, answer3] 1 = 77 \<and>
   blockOffset int_ops [answer1, answer2, answer3] 2 = 138 \<and>
   take (length (fileReference ''src/b.ts''))
     (drop 0 (renderResponse int_ops \<lparr>answers = [answer1, answer2, answer3]\<rparr>)) =
     fileReference ''src/b.ts'' \<and>
   take (length (fileReference ''a.py''))
     (drop 77 (renderResponse int_ops \<lparr>answers = [answer1, answer2, answer3]\<rparr>)) =
     fileReference ''a.py'' \<and>
   take (length (fileReference ''src/b.ts''))
     (drop 138 (renderResponse int_ops \<lparr>answers = [answer1, answer2, answer3]\<rparr>)) =
     fileReference ''src/b.ts'' \<and>
   sublist ''calls g'' (renderAnswer int_ops answer3)"
proof -
  let ?al = "[answer1, answer2, answer3]"
  note t = render_order_preserving [of int_ops ?al]
  have whole: "renderResponse int_ops \<lparr>answers = ?al\<rparr> =
     renderAnswer int_ops answer1 @ renderAnswer int_ops answer2 @ renderAnswer int_ops answer3"
    using t by simp
  have b2: "renderAnswer int_ops answer2 =
     ''**a.py** (lines 1-1) [score: 1.00]'' @ newline @ newline @
     fence @ ''python'' @ newline @ ''pass'' @ newline @ fence @ newline @ newline @
     ''---'' @ newline @ newline"
    by code_simp
  have o0: "blockOffset int_ops ?al 0 = 0" by code_simp
  have o1: "blockOffset int_ops ?al 1 = 77" by code_simp
  have o2: "blockOffset int_ops ?al 2 = 138" by code_simp
  have r0: "take (length (fileReference ''src/b.ts''))
     (drop 0 (renderResponse int_ops \<lparr>answers = ?al\<rparr>)) = fileReference ''src/b.ts''"
    by code_simp
  have r1: "take (length (fileReference ''a.py''))
     (drop 77 (renderResponse int_ops \<lparr>answers = ?al\<rparr>)) = fileReference ''a.py''"
    by code_simp
  have r2: "take (length (fileReference ''src/b.ts''))
     (drop 138 (renderResponse int_ops \<lparr>answers = ?al\<rparr>)) = fileReference ''src/b.ts''"
    by code_simp
  have "2 < length ?al" by simp
  with t have "sublist (explanation (?al ! 2)) (renderAnswer int_ops (?al ! 2))"
    by blast
  then have e3: "sublist ''calls g'' (renderAnswer int_ops answer3)"
    by (simp add: answer3_def)
  from whole b2 o0 o1 o2 r0 r1 r2 e3 show ?thesis by blast
qed

section \<open>Properties of the query client\<close>

lemma try_rejected:
  assumes "fetch b (serverUrl b @ ''/query'') request = Rejected e"
  shows "sendQuery_try ops b analysis request = Inl e"
  using assms by (simp add: sendQuery_try_def)

lemma try_failed:
  assumes "fetch b (serverUrl b @ ''/query'') request = Resolved response"
    and "\<not> ok response" and "text_body response = Inr errorText"
  shows "sendQuery_try ops b analysis request =
         Inl (if status response = 404 then notFoundError (fileCount analysis)
              else httpError (status response) errorText)"
  using assms by (simp add: sendQuery_try_def)

lemma try_sources:
  assumes "sendQuery_try ops b analysis request = Inl e"
  shows "fetch b (serverUrl b @ ''/query'') request = Rejected e \<or>
         (\<exists>response. fetch b (serverUrl b @ ''/query'') request = Resolved response \<and>
            (json_body response = Inl e \<or> text_body response = Inl e)) \<or>
         e = nullPropertyError ''answers'' \<or> e = conversionError \<or>
         e = notFoundError (fileCount analysis) \<or> (\<exists>st errorText. e = httpError st errorText)"
proof (cases "fetch b (serverUrl b @ ''/query'') request")
  case (Rejected e')
  with assms show ?thesis by (simp add: sendQuery_try_def)
next
  case (Resolved response)
  show ?thesis
  proof (cases "ok response")
    case True
    with assms Resolved show ?thesis
      by (auto simp: sendQuery_try_def split: sum.splits json.splits)
  next
    case False
    with assms Resolved show ?thesis
      by (auto simp: sendQuery_try_def split: sum.splits if_splits)
  qed
qed

lemma catch_abort:
  "err_name e = ''AbortError'' \<Longrightarrow> sendQuery_catch b e = timeoutError (requestTimeoutMs b)"
  by (simp add: sendQuery_catch_def)

lemma catch_connection:
  "err_name e \<noteq> ''AbortError'' \<Longrightarrow> connectionFailed e \<Longrightarrow>
   sendQuery_catch b e = connectivityError (serverUrl b)"
  by (auto simp: sendQuery_catch_def connectionFailed_def)

lemma catch_other:
  "err_name e \<noteq> ''AbortError'' \<Longrightarrow> \<not> connectionFailed e \<Longrightarrow> sendQuery_catch b e = e"
  by (auto simp: sendQuery_catch_def connectionFailed_def)

lemma timeout_is_not_connectivity: "timeoutError t \<noteq> connectivityError url"
  by (simp add: timeoutError_def connectivityError_def newError_def)

lemma timeout_is_not_http: "timeoutError t \<noteq> httpError st errorText"
  by (simp add: timeoutError_def httpError_def newError_def)

lemma timeout_is_not_notFound: "timeoutError t \<noteq> notFoundError n"
  by (simp add: timeoutError_def notFoundError_def newError_def)

lemma catch_timeout:
  assumes "sendQuery_catch b e = timeoutError t"
  shows "err_name e = ''AbortError'' \<or> e = timeoutError t"
proof (cases "err_name e = ''AbortError''")
  case True
  then show ?thesis by simp
next
  case False
  show ?thesis
  proof (cases "connectionFailed e")
    case True
    with False assms timeout_is_not_connectivity [of t "serverUrl b"] show ?thesis
      by (simp add: catch_connection)
  next
    case no: False
    with False assms show ?thesis by (simp add: catch_other)
  qed
qed

text \<open>The numerals are made of digits, so that a word with a letter is not inside one.\<close>

lemma digit_char_digit: "d < 10 \<Longrightarrow> digit_char d \<in> set ''0123456789''"
  unfolding digit_char_def by (rule nth_mem) simp

lemma string_of_nat_digits: "set (string_of_nat n) \<subseteq> set ''0123456789''"
proof (induction n rule: string_of_nat.induct)
  case (1 n)
  show ?case
  proof (cases "n < 10")
    case True
    then have "string_of_nat n = [digit_char n]" by (subst string_of_nat.simps) simp
    with digit_char_digit [OF True] show ?thesis by simp
  next
    case False
    then have eq: "string_of_nat n = string_of_nat (n div 10) @ [digit_char (n mod 10)]"
      by (subst string_of_nat.simps) simp
    have "digit_char (n mod 10) \<in> set ''0123456789''"
      by (rule digit_char_digit) simp
    with 1 [OF False] show ?thesis unfolding eq by simp
  qed
qed

lemma string_of_int_digits: "set (string_of_int i) \<subseteq> insert CHR ''-'' (set ''0123456789'')"
proof (cases "i < 0")
  case True
  then have "string_of_int i = CHR ''-'' # string_of_nat (nat (- i))"
    by (simp add: string_of_int_def)
  moreover have "set (CHR ''-'' # xs) \<subseteq> insert CHR ''-'' D" if "set xs \<subseteq> D" for xs D
    using that by auto
  ultimately show ?thesis using string_of_nat_digits [of "nat (- i)"] by metis
next
  case False
  then have "string_of_int i = string_of_nat (nat i)"
    by (simp add: string_of_int_def)
  moreover have "set xs \<subseteq> insert CHR ''-'' D" if "set xs \<subseteq> D" for xs :: string and D
    using that by auto
  ultimately show ?thesis using string_of_nat_digits [of "nat i"] by metis
qed

lemma not_digit:
  assumes "c \<notin> set ''0123456789''"
  shows "c \<notin> set (string_of_nat n)"
  using assms string_of_nat_digits [of n] by (meson subsetD)

lemma not_digit_int:
  assumes "c \<notin> set ''0123456789''" and "c \<noteq> CHR ''-''"
  shows "c \<notin> set (string_of_int i)"
proof
  assume "c \<in> set (string_of_int i)"
  with string_of_int_digits [of i] have "c \<in> insert CHR ''-'' (set ''0123456789'')"
    by (rule subsetD)
  with assms show False by (simp only: insert_iff) blast
qed

lemma sublist_first_apart:
  assumes "c \<notin> set xs"
  shows "sublist (c # w) (xs @ ys) \<longleftrightarrow> sublist (c # w) ys"
proof
  assume "sublist (c # w) (xs @ ys)"
  then consider "sublist (c # w) xs" | "sublist (c # w) ys"
    | w1 w2 where "c # w = w1 @ w2" "suffix w1 xs" "prefix w2 ys"
    unfolding sublist_append by blast
  then show "sublist (c # w) ys"
  proof cases
    case 1
    then have "c \<in> set xs" using set_mono_sublist by fastforce
    with assms show ?thesis by simp
  next
    case 2
    then show ?thesis .
  next
    case 3
    show ?thesis
    proof (cases w1)
      case Nil
      with 3 show ?thesis by simp
    next
      case (Cons a w1')
      with 3(1) have "c \<in> set w1" by simp
      with 3(2) have "c \<in> set xs" using set_mono_suffix by fastforce
      with assms show ?thesis by simp
    qed
  qed
next
  assume "sublist (c # w) ys"
  then show "sublist (c # w) (xs @ ys)" unfolding sublist_append by blast
qed

lemma sublist_last_apart:
  assumes "c \<notin> set ys"
  shows "sublist (w @ [c]) (xs @ ys) \<longleftrightarrow> sublist (w @ [c]) xs"
proof
  assume "sublist (w @ [c]) (xs @ ys)"
  then consider "sublist (w @ [c]) xs" | "sublist (w @ [c]) ys"
    | w1 w2 where "w @ [c] = w1 @ w2" "suffix w1 xs" "prefix w2 ys"
    unfolding sublist_append by blast
  then show "sublist (w @ [c]) xs"
  proof cases
    case 1
    then show ?thesis .
  next
    case 2
    then have "c \<in> set ys" using set_mono_sublist by fastforce
    with assms show ?thesis by simp
  next
    case 3
    show ?thesis
    proof (cases "w2 = []")
      case True
      with 3 show ?thesis by simp
    next
      case False
      then have "last w2 = c" using 3(1) by (metis last_appendR last_snoc)
      with False have "c \<in> set w2" using last_in_set by blast
      with 3(3) have "c \<in> set ys" using set_mono_prefix by fastforce
      with assms show ?thesis by simp
    qed
  qed
next
  assume "sublist (w @ [c]) xs"
  then show "sublist (w @ [c]) (xs @ ys)" unfolding sublist_append by blast
qed

lemma notFound_not_connection: "\<not> connectionFailed (notFoundError n)"
proof -
  let ?head = "''HTTP 404: Backend endpoint /query not found. The endpoint needs to be '' @
       ''implemented in the backend. Context collected: ''"
  have d1: "CHR ''d'' \<notin> set '' files.''" by simp
  have d2: "CHR ''d'' \<notin> set (string_of_nat n)"
    by (rule not_digit) simp
  have word: "''fetch failed'' = ''fetch faile'' @ [CHR ''d'']" by simp
  have "sublist ''fetch failed'' ((?head @ string_of_nat n) @ '' files.'') \<longleftrightarrow>
        sublist ''fetch failed'' (?head @ string_of_nat n)"
    unfolding word using d1 by (rule sublist_last_apart)
  also have "\<dots> \<longleftrightarrow> sublist ''fetch failed'' ?head"
    unfolding word using d2 by (rule sublist_last_apart)
  also have "\<dots> \<longleftrightarrow> False" by code_simp
  finally show ?thesis
    by (simp add: connectionFailed_def notFoundError_def newError_def includes_str_def)
qed

lemma http_connection:
  "connectionFailed (httpError st errorText) \<longleftrightarrow> includes_str errorText ''fetch failed''"
proof -
  have "CHR ''f'' \<notin> set (string_of_int st)"
    by (rule not_digit_int) simp_all
  then have "CHR ''f'' \<notin> set (''HTTP '' @ string_of_int st @ '': '')"
    by simp
  then have "sublist ''fetch failed'' ((''HTTP '' @ string_of_int st @ '': '') @ errorText) \<longleftrightarrow>
        sublist ''fetch failed'' errorText"
    by (rule sublist_first_apart)
  then show ?thesis
    by (simp add: connectionFailed_def httpError_def newError_def includes_str_def)
qed

lemma constructed_names:
  "err_name (nullPropertyError key) \<noteq> ''AbortError''"
  "err_name conversionError \<noteq> ''AbortError''"
  "err_name (notFoundError n) \<noteq> ''AbortError''"
  "err_name (httpError st errorText) \<noteq> ''AbortError''"
  by (simp_all add: nullPropertyError_def conversionError_def notFoundError_def httpError_def
      newError_def)

lemma constructed_not_timeout:
  "nullPropertyError key \<noteq> timeoutError t"
  "conversionError \<noteq> timeoutError t"
  by (simp_all add: nullPropertyError_def conversionError_def timeoutError_def newError_def)

text \<open>
  Claim C9. What \<open>sendQuery\<close> fails with, for each way the backend call can fail.

  \<^item> Timeout: when the timer aborts the request, that is when \<open>fetch\<close> rejects with an
    error named \<open>AbortError\<close>, \<open>sendQuery\<close> fails with the timeout error, whose message
    contains the configured \<open>requestTimeoutMs\<close>. This error differs from the connectivity
    error and from both HTTP errors, whatever their parameters.
  \<^item> Connectivity: when \<open>fetch\<close> rejects with another error that is a connection-level
    failure, \<open>sendQuery\<close> fails with the connectivity error; when it rejects with any
    other error, \<open>sendQuery\<close> fails with that error.
  \<^item> HTTP error: when the backend answers with a failure status and a text,
    \<open>sendQuery\<close> fails with the error for status 404 or with the HTTP error that carries
    the status and the text (with the connectivity error if the text contains
    \<open>fetch failed\<close>), and never with the timeout error.
  \<^item> The timeout error leaves \<open>sendQuery\<close> only when \<open>fetch\<close> or the reading of the body
    rejects with an error that is named \<open>AbortError\<close> or is the timeout error itself.
\<close>

theorem timeout_error:
  "(fetch b (serverUrl b @ ''/query'') (buildRequest q analysis active sel) = Rejected e \<and>
    err_name e = ''AbortError'' \<longrightarrow>
      sendQuery ops b q analysis active sel = Inl (timeoutError (requestTimeoutMs b)) \<and>
      err_message (timeoutError (requestTimeoutMs b)) =
        Some (''Request timeout after '' @ string_of_int (requestTimeoutMs b) @ ''ms'') \<and>
      (\<exists>m. err_message (timeoutError (requestTimeoutMs b)) = Some m \<and>
           includes_str m (string_of_int (requestTimeoutMs b)))) \<and>
   timeoutError (requestTimeoutMs b) \<noteq> connectivityError url \<and>
   timeoutError (requestTimeoutMs b) \<noteq> httpError st errorText \<and>
   timeoutError (requestTimeoutMs b) \<noteq> notFoundError n \<and>
   (fetch b (serverUrl b @ ''/query'') (buildRequest q analysis active sel) = Rejected e \<and>
    err_name e \<noteq> ''AbortError'' \<and> connectionFailed e \<longrightarrow>
      sendQuery ops b q analysis active sel = Inl (connectivityError (serverUrl b))) \<and>
   (fetch b (serverUrl b @ ''/query'') (buildRequest q analysis active sel) = Rejected e \<and>
    err_name e \<noteq> ''AbortError'' \<and> \<not> connectionFailed e \<longrightarrow>
      sendQuery ops b q analysis active sel = Inl e) \<and>
   (fetch b (serverUrl b @ ''/query'') (buildRequest q analysis active sel) = Resolved response \<and>
    \<not> ok response \<and> text_body response = Inr body \<longrightarrow>
      sendQuery ops b q analysis active sel =
        Inl (if status response = 404 then notFoundError (fileCount analysis)
             else if includes_str body ''fetch failed'' then connectivityError (serverUrl b)
             else httpError (status response) body) \<and>
      sendQuery ops b q analysis active sel \<noteq> Inl (timeoutError (requestTimeoutMs b))) \<and>
   (sendQuery ops b q analysis active sel = Inl (timeoutError (requestTimeoutMs b)) \<longrightarrow>
      (\<exists>e'. (fetch b (serverUrl b @ ''/query'') (buildRequest q analysis active sel) = Rejected e' \<or>
             (\<exists>r. fetch b (serverUrl b @ ''/query'') (buildRequest q analysis active sel) =
                    Resolved r \<and> (json_body r = Inl e' \<or> text_body r = Inl e'))) \<and>
            (err_name e' = ''AbortError'' \<or> e' = timeoutError (requestTimeoutMs b))))"
proof (intro conjI impI)
  let ?request = "buildRequest q analysis active sel"
  let ?t = "timeoutError (requestTimeoutMs b)"
  show "?t \<noteq> connectivityError url" by (rule timeout_is_not_connectivity)
  show "?t \<noteq> httpError st errorText" by (rule timeout_is_not_http)
  show "?t \<noteq> notFoundError n" by (rule timeout_is_not_notFound)
  {
    assume h: "fetch b (serverUrl b @ ''/query'') ?request = Rejected e \<and>
      err_name e = ''AbortError''"
    then have "sendQuery_try ops b analysis ?request = Inl e" by (simp add: try_rejected)
    with h show "sendQuery ops b q analysis active sel = Inl ?t"
      by (simp add: sendQuery_def catch_abort)
    show "err_message ?t =
        Some (''Request timeout after '' @ string_of_int (requestTimeoutMs b) @ ''ms'')"
      by (simp add: timeoutError_def newError_def)
    have "includes_str (''Request timeout after '' @ string_of_int (requestTimeoutMs b) @ ''ms'')
        (string_of_int (requestTimeoutMs b))"
      unfolding includes_str_def by (rule sublist_appendI)
    then show "\<exists>m. err_message ?t = Some m \<and> includes_str m (string_of_int (requestTimeoutMs b))"
      by (simp add: timeoutError_def newError_def)
  }
  {
    assume h: "fetch b (serverUrl b @ ''/query'') ?request = Rejected e \<and>
      err_name e \<noteq> ''AbortError'' \<and> connectionFailed e"
    then have "sendQuery_try ops b analysis ?request = Inl e" by (simp add: try_rejected)
    with h show "sendQuery ops b q analysis active sel = Inl (connectivityError (serverUrl b))"
      by (simp add: sendQuery_def catch_connection)
  }
  {
    assume h: "fetch b (serverUrl b @ ''/query'') ?request = Rejected e \<and>
      err_name e \<noteq> ''AbortError'' \<and> \<not> connectionFailed e"
    then have "sendQuery_try ops b analysis ?request = Inl e" by (simp add: try_rejected)
    with h show "sendQuery ops b q analysis active sel = Inl e"
      by (simp add: sendQuery_def catch_other)
  }
  {
    assume h: "fetch b (serverUrl b @ ''/query'') ?request = Resolved response \<and>
      \<not> ok response \<and> text_body response = Inr body"
    let ?thrown = "if status response = 404 then notFoundError (fileCount analysis)
                   else httpError (status response) body"
    from h have thrown: "sendQuery_try ops b analysis ?request = Inl ?thrown"
      by (simp add: try_failed)
    have name: "err_name ?thrown \<noteq> ''AbortError''"
      by (simp add: constructed_names)
    have caught: "sendQuery_catch b ?thrown =
        (if status response = 404 then notFoundError (fileCount analysis)
         else if includes_str body ''fetch failed'' then connectivityError (serverUrl b)
         else httpError (status response) body)"
    proof (cases "status response = 404")
      case True
      then show ?thesis
        using catch_other [of "notFoundError (fileCount analysis)" b]
        by (simp add: constructed_names notFound_not_connection)
    next
      case False
      then show ?thesis
        using catch_other [of "httpError (status response) body" b]
          catch_connection [of "httpError (status response) body" b]
        by (simp add: constructed_names http_connection)
    qed
    from thrown caught show result: "sendQuery ops b q analysis active sel =
        Inl (if status response = 404 then notFoundError (fileCount analysis)
             else if includes_str body ''fetch failed'' then connectivityError (serverUrl b)
             else httpError (status response) body)"
      by (simp add: sendQuery_def)
    show "sendQuery ops b q analysis active sel \<noteq> Inl ?t"
      unfolding result
      using timeout_is_not_connectivity [of "requestTimeoutMs b" "serverUrl b"]
        timeout_is_not_http [of "requestTimeoutMs b" "status response" body]
        timeout_is_not_notFound [of "requestTimeoutMs b" "fileCount analysis"]
      by auto
  }
  {
    assume h: "sendQuery ops b q analysis active sel = Inl ?t"
    then obtain e' where thrown: "sendQuery_try ops b analysis ?request = Inl e'"
      and caught: "sendQuery_catch b e' = ?t"
      by (auto simp: sendQuery_def split: sum.splits)
    from catch_timeout [OF caught] have kind: "err_name e' = ''AbortError'' \<or> e' = ?t" .
    from try_sources [OF thrown] consider
        "fetch b (serverUrl b @ ''/query'') ?request = Rejected e'"
      | r where "fetch b (serverUrl b @ ''/query'') ?request = Resolved r"
          "json_body r = Inl e' \<or> text_body r = Inl e'"
      | "e' = nullPropertyError ''answers''" | "e' = conversionError"
      | "e' = notFoundError (fileCount analysis)"
      | st' text' where "e' = httpError st' text'"
      by blast
    then show "\<exists>e'. (fetch b (serverUrl b @ ''/query'') ?request = Rejected e' \<or>
             (\<exists>r. fetch b (serverUrl b @ ''/query'') ?request = Resolved r \<and>
                 (json_body r = Inl e' \<or> text_body r = Inl e'))) \<and>
            (err_name e' = ''AbortError'' \<or> e' = ?t)"
    proof cases
      case 1
      with kind show ?thesis by blast
    next
      case 2
      with kind show ?thesis by blast
    next
      case 3
      with kind constructed_names(1) [of "''answers''"]
        constructed_not_timeout(1) [of "''answers''" "requestTimeoutMs b"]
      show ?thesis by simp
    next
      case 4
      with kind constructed_names(2) constructed_not_timeout(2) [of "requestTimeoutMs b"]
      show ?thesis by simp
    next
      case 5
      with kind constructed_names(3) [of "fileCount analysis"]
        timeout_is_not_notFound [of "requestTimeoutMs b" "fileCount analysis"]
      show ?thesis by auto
    next
      case 6
      with kind constructed_names(4) [of st' text']
        timeout_is_not_http [of "requestTimeoutMs b" st' text']
      show ?thesis by auto
    qed
  }
qed

theorem timeout_error_witness:
  "fetch aborting_backend (serverUrl aborting_backend @ ''/query'')
     (buildRequest ''where is f'' demo_analysis None None) =
     Rejected \<lparr>err_name = ''AbortError'', err_message = Some ''This operation was aborted'',
       err_code = None\<rparr> \<and>
   err_name \<lparr>err_name = ''AbortError'', err_message = Some ''This operation was aborted'',
       err_code = None\<rparr> = ''AbortError'' \<and>
   sendQuery int_ops aborting_backend ''where is f'' demo_analysis None None =
     Inl (newError ''Request timeout after 20000ms'') \<and>
   fetch unreachable_backend (serverUrl unreachable_backend @ ''/query'')
     (buildRequest ''where is f'' demo_analysis None None) =
     Rejected \<lparr>err_name = ''TypeError'', err_message = Some ''fetch failed'', err_code = None\<rparr> \<and>
   err_name \<lparr>err_name = ''TypeError'', err_message = Some ''fetch failed'', err_code = None\<rparr> \<noteq>
     ''AbortError'' \<and>
   connectionFailed
     \<lparr>err_name = ''TypeError'', err_message = Some ''fetch failed'', err_code = None\<rparr> \<and>
   sendQuery int_ops unreachable_backend ''where is f'' demo_analysis None None =
     Inl (connectivityError ''http://localhost:8000'') \<and>
   fetch (failing_backend 500 ''Internal Server Error'')
     (serverUrl (failing_backend 500 ''Internal Server Error'') @ ''/query'')
     (buildRequest ''where is f'' demo_analysis None None) =
     Resolved \<lparr>ok = False, status = 500, text_body = Inr ''Internal Server Error'',
       json_body = Inr JNull\<rparr> \<and>
   sendQuery int_ops (failing_backend 500 ''Internal Server Error'') ''where is f''
     demo_analysis None None = Inl (newError ''HTTP 500: Internal Server Error'') \<and>
   sendQuery int_ops (failing_backend 500 ''Internal Server Error'') ''where is f''
     demo_analysis None None \<noteq> Inl (newError ''Request timeout after 20000ms'') \<and>
   sendQuery int_ops (failing_backend 404 ''Not Found'') ''where is f''
     demo_analysis None None = Inl (notFoundError 2)"
proof -
  let ?request = "buildRequest ''where is f'' demo_analysis None None"
  let ?abort = "\<lparr>err_name = ''AbortError'', err_message = Some ''This operation was aborted'',
       err_code = None\<rparr>"
  let ?refused = "\<lparr>err_name = ''TypeError'', err_message = Some ''fetch failed'',
       err_code = None\<rparr>"
  let ?r500 = "\<lparr>ok = False, status = 500, text_body = Inr ''Internal Server Error'',
       json_body = Inr JNull\<rparr> :: int http_response"
  let ?r404 = "\<lparr>ok = False, status = 404, text_body = Inr ''Not Found'',
       json_body = Inr JNull\<rparr> :: int http_response"
  have h1: "fetch aborting_backend (serverUrl aborting_backend @ ''/query'') ?request =
      Rejected ?abort"
    by (simp add: aborting_backend_def)
  have h2: "err_name ?abort = ''AbortError''" by simp
  have d: "string_of_nat 20000 = ''20000''"
    by (simp add: string_of_nat.simps digit_char_def)
  have v: "timeoutError (requestTimeoutMs aborting_backend) =
      newError ''Request timeout after 20000ms''"
    by (simp add: aborting_backend_def timeoutError_def string_of_int_def d)
  from timeout_error [of aborting_backend "''where is f''" demo_analysis None None ?abort int_ops]
    h1 h2
  have "sendQuery int_ops aborting_backend ''where is f'' demo_analysis None None =
       Inl (timeoutError (requestTimeoutMs aborting_backend))"
    by blast
  with v have timeout: "sendQuery int_ops aborting_backend ''where is f'' demo_analysis None None =
     Inl (newError ''Request timeout after 20000ms'')"
    by simp
  have c1: "fetch unreachable_backend (serverUrl unreachable_backend @ ''/query'') ?request =
      Rejected ?refused"
    by (simp add: unreachable_backend_def)
  have c2: "err_name ?refused \<noteq> ''AbortError''" by simp
  have c3: "connectionFailed ?refused" by (simp add: connectionFailed_def includes_str_def)
  from timeout_error [of unreachable_backend "''where is f''" demo_analysis None None ?refused
      int_ops] c1 c2 c3
  have "sendQuery int_ops unreachable_backend ''where is f'' demo_analysis None None =
       Inl (connectivityError (serverUrl unreachable_backend))"
    by blast
  then have connectivity:
    "sendQuery int_ops unreachable_backend ''where is f'' demo_analysis None None =
       Inl (connectivityError ''http://localhost:8000'')"
    by (simp add: unreachable_backend_def)
  have f1: "fetch (failing_backend 500 ''Internal Server Error'')
     (serverUrl (failing_backend 500 ''Internal Server Error'') @ ''/query'') ?request =
     Resolved ?r500"
    by (simp add: failing_backend_def)
  have f2: "\<not> ok ?r500 \<and> text_body ?r500 = Inr ''Internal Server Error''" by simp
  have f3: "\<not> includes_str ''Internal Server Error'' ''fetch failed''" by code_simp
  have d500: "string_of_int 500 = ''500''"
    by (simp add: string_of_int_def string_of_nat.simps digit_char_def)
  have t500: "timeoutError (requestTimeoutMs (failing_backend 500 ''Internal Server Error'')) =
      newError ''Request timeout after 20000ms''"
    by (simp add: failing_backend_def timeoutError_def string_of_int_def d)
  from timeout_error [of "failing_backend 500 ''Internal Server Error''" "''where is f''"
      demo_analysis None None _ int_ops _ _ _ _ ?r500 "''Internal Server Error''"] f1 f2
  have "sendQuery int_ops (failing_backend 500 ''Internal Server Error'') ''where is f''
          demo_analysis None None =
        Inl (if status ?r500 = 404 then notFoundError (fileCount demo_analysis)
             else if includes_str ''Internal Server Error'' ''fetch failed''
               then connectivityError (serverUrl (failing_backend 500 ''Internal Server Error''))
             else httpError (status ?r500) ''Internal Server Error'') \<and>
        sendQuery int_ops (failing_backend 500 ''Internal Server Error'') ''where is f''
          demo_analysis None None \<noteq>
        Inl (timeoutError (requestTimeoutMs (failing_backend 500 ''Internal Server Error'')))"
    by blast
  then have raw1:
    "sendQuery int_ops (failing_backend 500 ''Internal Server Error'') ''where is f''
          demo_analysis None None =
        Inl (if status ?r500 = 404 then notFoundError (fileCount demo_analysis)
             else if includes_str ''Internal Server Error'' ''fetch failed''
               then connectivityError (serverUrl (failing_backend 500 ''Internal Server Error''))
             else httpError (status ?r500) ''Internal Server Error'')"
    and raw2:
    "sendQuery int_ops (failing_backend 500 ''Internal Server Error'') ''where is f''
          demo_analysis None None \<noteq>
        Inl (timeoutError (requestTimeoutMs (failing_backend 500 ''Internal Server Error'')))"
    by blast+
  have v500: "(if status ?r500 = 404 then notFoundError (fileCount demo_analysis)
             else if includes_str ''Internal Server Error'' ''fetch failed''
               then connectivityError (serverUrl (failing_backend 500 ''Internal Server Error''))
             else httpError (status ?r500) ''Internal Server Error'') =
        newError ''HTTP 500: Internal Server Error''"
    using f3 by (simp add: httpError_def d500)
  from raw1 have http1:
    "sendQuery int_ops (failing_backend 500 ''Internal Server Error'') ''where is f''
       demo_analysis None None = Inl (newError ''HTTP 500: Internal Server Error'')"
    unfolding v500 .
  from raw2 have http2:
    "sendQuery int_ops (failing_backend 500 ''Internal Server Error'') ''where is f''
       demo_analysis None None \<noteq> Inl (newError ''Request timeout after 20000ms'')"
    unfolding t500 .
  have g1: "fetch (failing_backend 404 ''Not Found'')
     (serverUrl (failing_backend 404 ''Not Found'') @ ''/query'') ?request = Resolved ?r404"
    by (simp add: failing_backend_def)
  have g2: "\<not> ok ?r404 \<and> text_body ?r404 = Inr ''Not Found''" by simp
  from timeout_error [of "failing_backend 404 ''Not Found''" "''where is f''"
      demo_analysis None None _ int_ops _ _ _ _ ?r404 "''Not Found''"] g1 g2
  have "sendQuery int_ops (failing_backend 404 ''Not Found'') ''where is f''
          demo_analysis None None =
        Inl (if status ?r404 = 404 then notFoundError (fileCount demo_analysis)
             else if includes_str ''Not Found'' ''fetch failed''
               then connectivityError (serverUrl (failing_backend 404 ''Not Found''))
             else httpError (status ?r404) ''Not Found'')"
    by blast
  then have notfound: "sendQuery int_ops (failing_backend 404 ''Not Found'') ''where is f''
       demo_analysis None None = Inl (notFoundError 2)"
    by (simp add: demo_analysis_def)
  from h1 h2 timeout c1 c2 c3 connectivity f1 http1 http2 notfound show ?thesis by blast
qed












end
